theory Spec2Isabelle
  imports Main
begin

section \<open>Time\<close>

text \<open>
  A timezone-aware UTC \<open>datetime\<close> is the number of microseconds since
  1970-01-01T00:00:00Z, a \<open>date\<close> is the number of days since 1970-01-01.
  The \<open>updated_at\<close> of an item is kept as the instant that \<open>isoformat()\<close> writes out.
\<close>

type_synonym instant = int
type_synonym date = int

definition usec_per_day :: int where
  "usec_per_day = 86400000000"

definition usec_per_hour :: int where
  "usec_per_hour = 3600000000"

definition date_of :: "instant \<Rightarrow> date" where
  "date_of t = t div usec_per_day"

definition hour_of :: "instant \<Rightarrow> int" where
  "hour_of t = (t mod usec_per_day) div usec_per_hour"

definition minus_days :: "instant \<Rightarrow> int \<Rightarrow> instant" where
  "minus_days t n = t - n * usec_per_day"

section \<open>Data model\<close>

text \<open>
  A cell of the column \<open>created_at\<close> is a text when it is fetched or inserted, and an
  instant once \<open>pd.to_datetime\<close> has parsed the column. \<open>Stamp f t\<close> is a text that
  denotes the instant \<open>t\<close> and is written in the format \<open>f\<close>, a \<open>strftime\<close> pattern;
  \<open>NoTimestamp\<close> is a text that denotes no instant.
\<close>

datatype timestamp_text = Stamp string instant | NoTimestamp

record 'ts log_record =
  shop_id :: "string option"
  phone_number :: "string option"
  transaction_type :: string
  created_at :: 'ts

record item =
  item_shop_id :: string
  item_date :: date
  item_unique_customers :: int
  item_updated_at :: instant

datatype error = RuntimeError | ClientError | ValueError | IndexError

datatype outcome = Returned | Raised error

datatype response = InsertRaises | RespData "timestamp_text log_record list option" | RespNoData

datatype message =
    NoDataReturned
  | ComputingYesterday date int
  | ComputingToday date int
  | NoDataForTarget date
  | ProcessingShops nat date
  | ShopLine string date int
  | Generating nat int int
  | WarningNoData
  | SampleRecord "timestamp_text log_record"
  | InsertedBatch nat nat nat nat
  | WarningBatch nat response
  | ErrorBatch nat
  | SampleFailed "timestamp_text log_record"
  | Traceback
  | Generated nat
  | ShopIdsGenerated "string list"
  | CanNowRun

text \<open>
  What a script finds around it: the environment variables, the rows that
  \<open>select *\<close> on \<open>terminal_logs\<close> returns, and the answers of everything the code
  cannot decide: the clock (reading number \<open>k\<close> gives \<open>clock k\<close>), whether
  \<open>put_item\<close> raises for an item, the raw draws behind \<open>random\<close>, the identifiers
  \<open>uuid4\<close> returns and the response to an insert of a batch.
\<close>

record env =
  SUPABASE_URL :: "string option"
  SUPABASE_SERVICE_ROLE_KEY :: "string option"
  SUPABASE_ANON_KEY :: "string option"
  terminal_logs :: "timestamp_text log_record list"
  clock :: "nat \<Rightarrow> instant"
  put_fails :: "item \<Rightarrow> bool"
  draws :: "nat \<Rightarrow> nat"
  uuids :: "nat \<Rightarrow> string"
  insert_response :: "nat \<Rightarrow> timestamp_text log_record list \<Rightarrow> response"

text \<open>
  What a script changes: the DynamoDB table keyed by \<open>(shop_id, date)\<close>, the
  \<open>put_item\<close> calls made so far with whether each one succeeded, the batches
  sent to \<open>insert\<close>, the lines printed, and how many clock readings, random draws
  and identifiers have been taken.
\<close>

record world =
  table :: "string \<times> date \<rightharpoonup> item"
  put_log :: "(item \<times> bool) list"
  insert_calls :: "timestamp_text log_record list list"
  stdout :: "message list"
  reads :: nat
  rand_pos :: nat
  uuid_pos :: nat

definition print :: "message \<Rightarrow> world \<Rightarrow> world" where
  "print m w = w\<lparr>stdout := stdout w @ [m]\<rparr>"

definition now :: "env \<Rightarrow> world \<Rightarrow> instant \<times> world" where
  "now e w = (clock e (reads w), w\<lparr>reads := Suc (reads w)\<rparr>)"

section \<open>analytics.py\<close>

definition truthy :: "string option \<Rightarrow> bool" where
  "truthy v = (case v of None \<Rightarrow> False | Some s \<Rightarrow> s \<noteq> [])"

definition py_or :: "string option \<Rightarrow> string option \<Rightarrow> string option" where
  "py_or a b = (if truthy a then a else b)"

definition get_supabase_client :: "env \<Rightarrow> error + string \<times> string" where
  "get_supabase_client e =
     (let url = SUPABASE_URL e;
          key = py_or (SUPABASE_SERVICE_ROLE_KEY e) (SUPABASE_ANON_KEY e)
      in if \<not> truthy url \<or> \<not> truthy key then Inl RuntimeError
         else Inr (the url, the key))"

text \<open>
  \<open>fetch_table_rows\<close> and \<open>fetch_table_df\<close> as the script calls them, with neither
  \<open>limit\<close> nor \<open>filters\<close>. A data frame is the list of its rows.
\<close>

definition fetch_table_rows :: "env \<Rightarrow> error + timestamp_text log_record list" where
  "fetch_table_rows e =
     (case get_supabase_client e of
        Inl err \<Rightarrow> Inl err
      | Inr supabase \<Rightarrow> Inr (terminal_logs e))"

definition fetch_table_df :: "env \<Rightarrow> error + timestamp_text log_record list" where
  "fetch_table_df e = fetch_table_rows e"

definition save_unique_customer_count_ddb ::
    "env \<Rightarrow> string \<Rightarrow> date \<Rightarrow> int \<Rightarrow> world \<Rightarrow> outcome \<times> world" where
  "save_unique_customer_count_ddb e sid date_str unique_customers w =
     (let (ts, w1) = now e w;
          it = \<lparr>item_shop_id = sid, item_date = date_str,
                item_unique_customers = unique_customers, item_updated_at = ts\<rparr>
      in if put_fails e it
         then (Raised ClientError, w1\<lparr>put_log := put_log w1 @ [(it, False)]\<rparr>)
         else (Returned, w1\<lparr>table := (table w1)((sid, date_str) \<mapsto> it),
                              put_log := put_log w1 @ [(it, True)]\<rparr>))"

text \<open>The pandas operations on a column, a column being the list of its cells.\<close>

fun dropna :: "'a option list \<Rightarrow> 'a list" where
  "dropna [] = []"
| "dropna (None # xs) = dropna xs"
| "dropna (Some x # xs) = x # dropna xs"

text \<open>\<open>unique\<close> keeps each value where it first appears, remembering the values seen.\<close>

fun unique_from :: "'a set \<Rightarrow> 'a list \<Rightarrow> 'a list" where
  "unique_from seen [] = []"
| "unique_from seen (x # xs) =
     (if x \<in> seen then unique_from seen xs else x # unique_from (insert x seen) xs)"

definition unique :: "'a list \<Rightarrow> 'a list" where
  "unique xs = unique_from {} xs"

text \<open>The column \<open>phone_number\<close> holds strings, which \<open>astype(str)\<close> leaves as they are.\<close>

definition astype_str :: "string list \<Rightarrow> string list" where
  "astype_str xs = map (\<lambda>s. s) xs"

definition nunique :: "'a list \<Rightarrow> nat" where
  "nunique xs = length (remdups xs)"

text \<open>
  \<open>pd.to_datetime(column, utc=True)\<close>, as pandas 2 and later do it: the format is
  inferred from the first cell and every cell is read in that format, so that a cell in
  another format, or one that is no timestamp, raises \<open>ValueError\<close>.
\<close>

fun guess_datetime_format :: "timestamp_text \<Rightarrow> string option" where
  "guess_datetime_format (Stamp f t) = Some f"
| "guess_datetime_format NoTimestamp = None"

fun strptime :: "string \<Rightarrow> timestamp_text \<Rightarrow> error + instant" where
  "strptime f (Stamp g t) = (if g = f then Inr t else Inl ValueError)"
| "strptime f NoTimestamp = Inl ValueError"

fun array_strptime :: "string \<Rightarrow> timestamp_text list \<Rightarrow> error + instant list" where
  "array_strptime f [] = Inr []"
| "array_strptime f (c # cs) =
     (case strptime f c of
        Inl err \<Rightarrow> Inl err
      | Inr t \<Rightarrow>
          (case array_strptime f cs of
             Inl err \<Rightarrow> Inl err
           | Inr ts \<Rightarrow> Inr (t # ts)))"

definition to_datetime :: "timestamp_text list \<Rightarrow> error + instant list" where
  "to_datetime cells =
     (case cells of
        [] \<Rightarrow> Inr []
      | c # cs \<Rightarrow>
          (case guess_datetime_format c of
             None \<Rightarrow> Inl ValueError
           | Some f \<Rightarrow> array_strptime f cells))"

text \<open>\<open>df["created_at"] = column\<close>\<close>

definition set_created_at :: "'a log_record \<Rightarrow> 'b \<Rightarrow> 'b log_record" where
  "set_created_at r t =
     \<lparr>shop_id = shop_id r, phone_number = phone_number r,
      transaction_type = transaction_type r, created_at = t\<rparr>"

definition assign_created_at :: "'a log_record list \<Rightarrow> 'b list \<Rightarrow> 'b log_record list" where
  "assign_created_at df column = map2 set_created_at df column"

definition target_date :: "instant \<Rightarrow> date" where
  "target_date now_utc =
     (if hour_of now_utc = 0 then date_of (minus_days now_utc 1) else date_of now_utc)"

definition count_unique_customers :: "'a log_record list \<Rightarrow> string \<Rightarrow> int" where
  "count_unique_customers df_today sid =
     (let df_shop = filter (\<lambda>r. shop_id r = Some sid) df_today
      in int (nunique (astype_str (dropna (map phone_number df_shop)))))"

fun shop_loop ::
    "env \<Rightarrow> date \<Rightarrow> instant log_record list \<Rightarrow> string list \<Rightarrow> world \<Rightarrow> outcome \<times> world" where
  "shop_loop e d df_today [] w = (Returned, w)"
| "shop_loop e d df_today (sid # rest) w =
     (let unique_customers = count_unique_customers df_today sid
      in case save_unique_customer_count_ddb e sid d unique_customers w of
           (Raised err, w1) \<Rightarrow> (Raised err, w1)
         | (Returned, w1) \<Rightarrow>
             shop_loop e d df_today rest (print (ShopLine sid d unique_customers) w1))"

definition analytics_main :: "env \<Rightarrow> world \<Rightarrow> outcome \<times> world" where
  "analytics_main e w =
     (case fetch_table_df e of
        Inl err \<Rightarrow> (Raised err, w)
      | Inr fetched \<Rightarrow>
          if fetched = [] then (Returned, print NoDataReturned w)
          else
            (case to_datetime (map created_at fetched) of
               Inl err \<Rightarrow> (Raised err, w)
             | Inr column \<Rightarrow>
                 let df = assign_created_at fetched column;
                     (now_utc, w1) = now e w;
                     d = target_date now_utc;
                     w2 = print (if hour_of now_utc = 0
                                 then ComputingYesterday d (hour_of now_utc)
                                 else ComputingToday d (hour_of now_utc)) w1;
                     df_today = filter (\<lambda>r. date_of (created_at r) = d) df
                 in if df_today = [] then (Returned, print (NoDataForTarget d) w2)
                    else
                      let unique_shop_ids = unique (dropna (map shop_id df_today));
                          w3 = print (ProcessingShops (length unique_shop_ids) d) w2
                      in shop_loop e d df_today unique_shop_ids w3))"

section \<open>generate_test_data.py\<close>




fun str_nat :: "nat \<Rightarrow> string" where
  "str_nat n =
     (if n < 10 then [char_of (48 + n)]
      else str_nat (n div 10) @ [char_of (48 + n mod 10)])"




text \<open>
  \<open>datetime.combine(target_date, datetime.min.time()).replace(hour=..., minute=...,
  second=..., tzinfo=timezone.utc)\<close>
\<close>

definition at_time :: "date \<Rightarrow> int \<Rightarrow> int \<Rightarrow> int \<Rightarrow> instant" where
  "at_time d hour minute second =
     d * usec_per_day + hour * usec_per_hour + minute * 60000000 + second * 1000000"

text \<open>
  \<open>isoformat()\<close> of a UTC \<open>datetime\<close> writes the microseconds only when there are some.
\<close>

definition iso_seconds :: string where
  "iso_seconds = ''%Y-%m-%dT%H:%M:%S%z''"

definition iso_microseconds :: string where
  "iso_microseconds = ''%Y-%m-%dT%H:%M:%S.%f%z''"











section \<open>Vocabulary of the properties\<close>

definition mk_item :: "env \<Rightarrow> date \<Rightarrow> instant log_record list \<Rightarrow> string \<Rightarrow> nat \<Rightarrow> item" where
  "mk_item e d df sid k =
     \<lparr>item_shop_id = sid, item_date = d,
      item_unique_customers = count_unique_customers df sid, item_updated_at = clock e k\<rparr>"

fun attempts ::
    "env \<Rightarrow> date \<Rightarrow> instant log_record list \<Rightarrow> string list \<Rightarrow> nat \<Rightarrow> (item \<times> bool) list" where
  "attempts e d df [] k = []"
| "attempts e d df (sid # rest) k =
     (if put_fails e (mk_item e d df sid k) then [(mk_item e d df sid k, False)]
      else (mk_item e d df sid k, True) # attempts e d df rest (Suc k))"

definition apply_put :: "item \<times> bool \<Rightarrow> (string \<times> date \<rightharpoonup> item) \<Rightarrow> (string \<times> date \<rightharpoonup> item)" where
  "apply_put p t = (if snd p then t((item_shop_id (fst p), item_date (fst p)) \<mapsto> fst p) else t)"

definition run_date :: "env \<Rightarrow> world \<Rightarrow> date" where
  "run_date e w = target_date (clock e (reads w))"

text \<open>
  Whether \<open>pd.to_datetime\<close> accepts the fetched column, and the data frame a run works
  on after it: the fetched rows with \<open>created_at\<close> parsed, and no rows when the parse
  raises.
\<close>

definition parses :: "env \<Rightarrow> bool" where
  "parses e =
     (case to_datetime (map created_at (terminal_logs e)) of
        Inl err \<Rightarrow> False
      | Inr column \<Rightarrow> True)"

definition parsed_rows :: "env \<Rightarrow> instant log_record list" where
  "parsed_rows e =
     (case to_datetime (map created_at (terminal_logs e)) of
        Inl err \<Rightarrow> []
      | Inr column \<Rightarrow> assign_created_at (terminal_logs e) column)"

definition rows_on :: "env \<Rightarrow> date \<Rightarrow> instant log_record list" where
  "rows_on e d = filter (\<lambda>r. date_of (created_at r) = d) (parsed_rows e)"

definition shops_on :: "env \<Rightarrow> date \<Rightarrow> string list" where
  "shops_on e d = unique (dropna (map shop_id (rows_on e d)))"

definition run_attempts :: "env \<Rightarrow> world \<Rightarrow> (item \<times> bool) list" where
  "run_attempts e w =
     attempts e (run_date e w) (rows_on e (run_date e w)) (shops_on e (run_date e w)) (Suc (reads w))"

definition puts_of_run :: "world \<Rightarrow> world \<Rightarrow> (item \<times> bool) list" where
  "puts_of_run w w' = drop (length (put_log w)) (put_log w')"

definition credentials_set :: "env \<Rightarrow> bool" where
  "credentials_set e = (case get_supabase_client e of Inl err \<Rightarrow> False | Inr c \<Rightarrow> True)"

text \<open>The instant a text denotes, its calendar date in UTC, and a fetched row read so.\<close>

fun instant_of :: "timestamp_text \<Rightarrow> instant option" where
  "instant_of (Stamp f t) = Some t"
| "instant_of NoTimestamp = None"

definition utc_date :: "timestamp_text \<Rightarrow> date option" where
  "utc_date c = map_option date_of (instant_of c)"

definition parsed :: "timestamp_text log_record \<Rightarrow> instant log_record" where
  "parsed r = set_created_at r (the (instant_of (created_at r)))"

definition customers :: "timestamp_text log_record list \<Rightarrow> string \<Rightarrow> date \<Rightarrow> string set" where
  "customers rows sid d =
     {p. \<exists>r\<in>set rows. shop_id r = Some sid \<and> utc_date (created_at r) = Some d \<and>
                       phone_number r = Some p}"

definition summary_core :: "item \<Rightarrow> string \<times> date \<times> int" where
  "summary_core it = (item_shop_id it, item_date it, item_unique_customers it)"



subsection \<open>Concrete runs\<close>

text \<open>
  The rows of the end-to-end example of the specification: three rows of shop A on
  2026-01-20 (day 20473), two of them with the same phone number, and one row of shop B
  on the day before.
\<close>

definition example_rows :: "timestamp_text log_record list" where
  "example_rows =
     [\<lparr>shop_id = Some ''A'', phone_number = Some ''+6581234567'',
       transaction_type = ''stamp_collection'',
       created_at = Stamp iso_seconds (at_time 20473 10 0 0)\<rparr>,
      \<lparr>shop_id = Some ''A'', phone_number = Some ''+6581234567'',
       transaction_type = ''stamp_collection'',
       created_at = Stamp iso_seconds (at_time 20473 11 0 0)\<rparr>,
      \<lparr>shop_id = Some ''A'', phone_number = Some ''+6587654321'',
       transaction_type = ''stamp_collection'',
       created_at = Stamp iso_seconds (at_time 20473 12 0 0)\<rparr>,
      \<lparr>shop_id = Some ''B'', phone_number = Some ''+6581111111'',
       transaction_type = ''stamp_collection'',
       created_at = Stamp iso_seconds (at_time 20472 10 0 0)\<rparr>]"

text \<open>
  Rows of one day with two shops that have customers, a shop whose only row has no phone
  number, and a row with no shop.
\<close>

definition mixed_rows :: "timestamp_text log_record list" where
  "mixed_rows =
     [\<lparr>shop_id = Some ''A'', phone_number = Some ''+6581234567'',
       transaction_type = ''stamp_collection'',
       created_at = Stamp iso_seconds (at_time 20473 10 0 0)\<rparr>,
      \<lparr>shop_id = None, phone_number = Some ''+6580000000'',
       transaction_type = ''stamp_collection'',
       created_at = Stamp iso_seconds (at_time 20473 10 30 0)\<rparr>,
      \<lparr>shop_id = Some ''B'', phone_number = Some ''+6581111111'',
       transaction_type = ''stamp_collection'',
       created_at = Stamp iso_seconds (at_time 20473 11 0 0)\<rparr>,
      \<lparr>shop_id = Some ''A'', phone_number = Some ''+6587654321'',
       transaction_type = ''stamp_collection'',
       created_at = Stamp iso_seconds (at_time 20473 12 0 0)\<rparr>,
      \<lparr>shop_id = Some ''C'', phone_number = None,
       transaction_type = ''stamp_collection'',
       created_at = Stamp iso_seconds (at_time 20473 12 30 0)\<rparr>]"

text \<open>
  A row with no shop whose timestamp is written with microseconds, and two rows of the day
  before 2026-01-20 of which the second is written with microseconds.
\<close>

definition fractional_row :: "timestamp_text log_record" where
  "fractional_row =
     \<lparr>shop_id = None, phone_number = Some ''+6580000000'',
      transaction_type = ''stamp_collection'',
      created_at = Stamp iso_microseconds (at_time 20473 10 30 0 + 250000)\<rparr>"

definition stale_rows :: "timestamp_text log_record list" where
  "stale_rows =
     [\<lparr>shop_id = Some ''B'', phone_number = Some ''+6581111111'',
       transaction_type = ''stamp_collection'',
       created_at = Stamp iso_seconds (at_time 20472 10 0 0)\<rparr>,
      \<lparr>shop_id = Some ''B'', phone_number = Some ''+6582222222'',
       transaction_type = ''stamp_collection'',
       created_at = Stamp iso_microseconds (at_time 20472 11 0 0 + 250000)\<rparr>]"

text \<open>
  An environment with credentials, a clock that starts at 2026-01-20T13:00:00Z and
  advances one second per reading, and a store that accepts every write.
\<close>

definition example_env :: "timestamp_text log_record list \<Rightarrow> env" where
  "example_env rows =
     \<lparr>SUPABASE_URL = Some ''https://example.supabase.co'',
      SUPABASE_SERVICE_ROLE_KEY = None,
      SUPABASE_ANON_KEY = Some ''anon'',
      terminal_logs = rows,
      clock = (\<lambda>k. at_time 20473 13 0 (int k)),
      put_fails = (\<lambda>it. False),
      draws = (\<lambda>k. 7 * k),
      uuids = (\<lambda>k. str_nat k),
      insert_response = (\<lambda>k batch. RespData None)\<rparr>"

text \<open>The same environment with a store that rejects every write for shop B.\<close>

definition failing_env :: "timestamp_text log_record list \<Rightarrow> env" where
  "failing_env rows = (example_env rows)\<lparr>put_fails := (\<lambda>it. item_shop_id it = ''B'')\<rparr>"

text \<open>
  The same environment with a store that rejects the write for shop B made at 13:00:02 and
  accepts every other write.
\<close>

definition flaky_env :: "timestamp_text log_record list \<Rightarrow> env" where
  "flaky_env rows =
     (example_env rows)\<lparr>put_fails :=
        (\<lambda>it. item_shop_id it = ''B'' \<and> item_updated_at it = at_time 20473 13 0 2)\<rparr>"

definition example_world :: world where
  "example_world =
     \<lparr>table = Map.empty, put_log = [], insert_calls = [], stdout = [],
      reads = 0, rand_pos = 0, uuid_pos = 0\<rparr>"

section \<open>The target date\<close>

lemma hour_of_range: "0 \<le> hour_of t \<and> hour_of t \<le> 23"
proof -
  have "0 \<le> t mod usec_per_day" "t mod usec_per_day < usec_per_day"
    by (simp_all add: usec_per_day_def)
  then show ?thesis
    unfolding hour_of_def usec_per_day_def usec_per_hour_def by auto
qed

lemma date_of_minus_days: "date_of (minus_days t n) = date_of t - n"
proof -
  have nz: "usec_per_day \<noteq> 0"
    by (simp add: usec_per_day_def)
  have "(t + (- n) * usec_per_day) div usec_per_day = (- n) + t div usec_per_day"
    using nz by (rule div_mult_self1)
  then show ?thesis
    by (simp add: date_of_def minus_days_def)
qed

lemma date_of_at_time:
  "0 \<le> h \<Longrightarrow> h \<le> 23 \<Longrightarrow> 0 \<le> m \<Longrightarrow> m \<le> 59 \<Longrightarrow> 0 \<le> s \<Longrightarrow> s \<le> 59 \<Longrightarrow>
     date_of (at_time d h m s) = d"
proof -
  assume a: "0 \<le> h" "h \<le> 23" "0 \<le> m" "m \<le> 59" "0 \<le> s" "s \<le> 59"
  define x where "x = h * usec_per_hour + m * 60000000 + s * 1000000"
  have "0 \<le> x" "x < usec_per_day"
    using a by (simp_all add: x_def usec_per_hour_def usec_per_day_def)
  then have "(x + d * usec_per_day) div usec_per_day = d"
    by (simp add: usec_per_day_def)
  moreover have "at_time d h m s = x + d * usec_per_day"
    by (simp add: at_time_def x_def)
  ultimately show ?thesis
    by (simp add: date_of_def)
qed

lemma hour_of_at_time:
  "0 \<le> h \<Longrightarrow> h \<le> 23 \<Longrightarrow> 0 \<le> m \<Longrightarrow> m \<le> 59 \<Longrightarrow> 0 \<le> s \<Longrightarrow> s \<le> 59 \<Longrightarrow>
     hour_of (at_time d h m s) = h"
proof -
  assume a: "0 \<le> h" "h \<le> 23" "0 \<le> m" "m \<le> 59" "0 \<le> s" "s \<le> 59"
  define y where "y = m * 60000000 + s * 1000000"
  define x where "x = h * usec_per_hour + y"
  have y: "0 \<le> y" "y < usec_per_hour"
    using a by (simp_all add: y_def usec_per_hour_def)
  have x: "0 \<le> x" "x < usec_per_day"
    using a y by (simp_all add: x_def usec_per_hour_def usec_per_day_def)
  have "at_time d h m s = x + d * usec_per_day"
    by (simp add: at_time_def x_def y_def)
  then have "at_time d h m s mod usec_per_day = x"
    using x by simp
  moreover have "x div usec_per_hour = h"
    using y by (simp add: x_def usec_per_hour_def)
  ultimately show ?thesis
    by (simp add: hour_of_def)
qed

text \<open>
  C2. When the hour of the current UTC instant is 0 the target date is the day before the
  instant's date, and for every other hour, which is one of 1 to 23, it is the instant's
  own date.
\<close>

theorem target_date_rule:
  "(hour_of now_utc = 0 \<longrightarrow> target_date now_utc = date_of now_utc - 1) \<and>
   (hour_of now_utc \<noteq> 0 \<longrightarrow>
      1 \<le> hour_of now_utc \<and> hour_of now_utc \<le> 23 \<and> target_date now_utc = date_of now_utc)"
  using hour_of_range[of now_utc]
  by (simp add: target_date_def date_of_minus_days)

theorem target_date_rule_witness:
  "hour_of (at_time 20474 0 15 0) = 0 \<and> target_date (at_time 20474 0 15 0) = 20473 \<and>
   hour_of (at_time 20474 9 0 0) = 9 \<and> target_date (at_time 20474 9 0 0) = 20474"
  using target_date_rule[of "at_time 20474 0 15 0"] target_date_rule[of "at_time 20474 9 0 0"]
  by (simp add: hour_of_at_time date_of_at_time)

section \<open>Parsing the timestamps\<close>

lemma array_strptime_Inr: "array_strptime f cs = Inr ts \<longleftrightarrow> cs = map (Stamp f) ts"
proof (induction cs arbitrary: ts)
  case Nil
  show ?case by auto
next
  case (Cons c cs)
  show ?case
  proof (cases c)
    case (Stamp g t)
    show ?thesis
    proof (cases ts)
      case Nil
      show ?thesis by (simp add: Stamp Nil split: sum.splits)
    next
      case ts: (Cons t' ts')
      show ?thesis
        using Cons.IH[of ts'] by (auto simp: Stamp ts split: sum.splits)
    qed
  next
    case NoTimestamp
    show ?thesis
      by (cases ts) (auto simp: NoTimestamp)
  qed
qed

lemma to_datetime_Inr: "to_datetime cs = Inr ts \<longleftrightarrow> (\<exists>f. cs = map (Stamp f) ts)"
proof (cases cs)
  case Nil
  show ?thesis by (auto simp: Nil to_datetime_def)
next
  case (Cons c cs')
  show ?thesis
  proof (cases c)
    case (Stamp g t)
    have "to_datetime cs = array_strptime g cs"
      by (simp add: Cons Stamp to_datetime_def)
    moreover have "(\<exists>f. cs = map (Stamp f) ts) \<longleftrightarrow> cs = map (Stamp g) ts"
      by (cases ts) (auto simp: Cons Stamp)
    ultimately show ?thesis
      by (simp add: array_strptime_Inr)
  next
    case NoTimestamp
    show ?thesis
      by (cases ts) (auto simp: Cons NoTimestamp to_datetime_def)
  qed
qed

lemma to_datetime_cases:
  "(\<exists>ts. to_datetime cs = Inr ts) \<or> to_datetime cs = Inl ValueError"
proof -
  have a: "(\<exists>ts. array_strptime f cs = Inr ts) \<or> array_strptime f cs = Inl ValueError" for f cs
  proof (induction cs)
    case Nil
    show ?case by simp
  next
    case (Cons c cs)
    then show ?case
      by (cases c) (auto split: sum.splits)
  qed
  show ?thesis
    using a by (auto simp: to_datetime_def split: list.splits option.splits)
qed

lemma parses_iff:
  "parses e \<longleftrightarrow> (\<exists>f. \<forall>r\<in>set (terminal_logs e). \<exists>t. created_at r = Stamp f t)"
proof
  assume "parses e"
  then obtain ts where "to_datetime (map created_at (terminal_logs e)) = Inr ts"
    by (auto simp: parses_def split: sum.splits)
  then obtain f where f: "map created_at (terminal_logs e) = map (Stamp f) ts"
    by (auto simp: to_datetime_Inr)
  have "\<exists>t. created_at r = Stamp f t" if "r \<in> set (terminal_logs e)" for r
  proof -
    have "created_at r \<in> set (map (Stamp f) ts)"
      using that by (simp only: f[symmetric]) simp
    then show ?thesis by auto
  qed
  then show "\<exists>f. \<forall>r\<in>set (terminal_logs e). \<exists>t. created_at r = Stamp f t"
    by blast
next
  assume "\<exists>f. \<forall>r\<in>set (terminal_logs e). \<exists>t. created_at r = Stamp f t"
  then obtain f where f: "\<forall>r\<in>set (terminal_logs e). \<exists>t. created_at r = Stamp f t"
    by blast
  have "map created_at (terminal_logs e) =
        map (Stamp f) (map (\<lambda>r. the (instant_of (created_at r))) (terminal_logs e))"
    using f by (auto simp: map_eq_conv)
  then have "to_datetime (map created_at (terminal_logs e)) =
             Inr (map (\<lambda>r. the (instant_of (created_at r))) (terminal_logs e))"
    by (subst to_datetime_Inr) blast
  then show "parses e"
    by (simp add: parses_def)
qed

lemma assign_parsed:
  "map created_at rows = map (Stamp f) ts \<Longrightarrow> assign_created_at rows ts = map parsed rows"
proof (induction rows arbitrary: ts)
  case Nil
  then show ?case by (simp add: assign_created_at_def)
next
  case (Cons r rows)
  then obtain t ts' where ts: "ts = t # ts'" "created_at r = Stamp f t"
    "map created_at rows = map (Stamp f) ts'"
    by (cases ts) auto
  from Cons.IH[OF ts(3)] show ?case
    by (simp add: ts assign_created_at_def parsed_def)
qed

lemma parsed_rows_parses: "parses e \<Longrightarrow> parsed_rows e = map parsed (terminal_logs e)"
proof -
  assume "parses e"
  then obtain ts where ts: "to_datetime (map created_at (terminal_logs e)) = Inr ts"
    by (auto simp: parses_def split: sum.splits)
  then obtain f where f: "map created_at (terminal_logs e) = map (Stamp f) ts"
    by (auto simp: to_datetime_Inr)
  show ?thesis
    by (simp add: parsed_rows_def ts assign_parsed[OF f])
qed

lemma parsed_rows_fails: "\<not> parses e \<Longrightarrow> parsed_rows e = []"
  by (auto simp: parses_def parsed_rows_def split: sum.splits)

lemma parsed_fields:
  "shop_id (parsed r) = shop_id r" "phone_number (parsed r) = phone_number r"
  by (simp_all add: parsed_def set_created_at_def)

lemma parsed_date:
  assumes "parses e" and "r \<in> set (terminal_logs e)"
  shows "date_of (created_at (parsed r)) = d \<longleftrightarrow> utc_date (created_at r) = Some d"
proof -
  from assms obtain f t where "created_at r = Stamp f t"
    by (auto simp: parses_iff)
  then show ?thesis
    by (auto simp: parsed_def set_created_at_def utc_date_def)
qed

lemma rows_on_parses:
  assumes "parses e"
  shows "rows_on e d =
           map parsed (filter (\<lambda>r. utc_date (created_at r) = Some d) (terminal_logs e))"
proof -
  have "filter (\<lambda>r. date_of (created_at (parsed r)) = d) (terminal_logs e) =
        filter (\<lambda>r. utc_date (created_at r) = Some d) (terminal_logs e)"
    by (rule filter_cong) (simp_all add: parsed_date[OF assms])
  then show ?thesis
    by (simp add: rows_on_def parsed_rows_parses[OF assms] filter_map comp_def)
qed

lemma rows_on_fails: "\<not> parses e \<Longrightarrow> rows_on e d = []"
  by (simp add: rows_on_def parsed_rows_fails)

lemma shops_on_parses:
  assumes "parses e"
  shows "shops_on e d =
           unique (dropna (map shop_id
             (filter (\<lambda>r. utc_date (created_at r) = Some d) (terminal_logs e))))"
  by (simp add: shops_on_def rows_on_parses[OF assms] comp_def parsed_fields)

lemma run_attempts_fails: "\<not> parses e \<Longrightarrow> run_attempts e w = []"
  by (simp add: run_attempts_def shops_on_def rows_on_fails unique_def)

lemma run_attempts_parses: "p \<in> set (run_attempts e w) \<Longrightarrow> parses e"
  by (cases "parses e") (simp_all add: run_attempts_fails)

section \<open>The aggregation run as a sequence of writes\<close>

lemma save_simp:
  "save_unique_customer_count_ddb e sid d c w =
     (let it = \<lparr>item_shop_id = sid, item_date = d, item_unique_customers = c,
                 item_updated_at = clock e (reads w)\<rparr>
      in if put_fails e it
         then (Raised ClientError, w\<lparr>reads := Suc (reads w), put_log := put_log w @ [(it, False)]\<rparr>)
         else (Returned, w\<lparr>reads := Suc (reads w), table := (table w)((sid, d) \<mapsto> it),
                             put_log := put_log w @ [(it, True)]\<rparr>))"
  by (simp add: save_unique_customer_count_ddb_def now_def Let_def)

lemma shop_loop_put_log:
  "put_log (snd (shop_loop e d df ss w)) = put_log w @ attempts e d df ss (reads w)"
proof (induction ss arbitrary: w)
  case Nil
  show ?case by simp
next
  case (Cons sid rest)
  show ?case
    by (simp add: save_simp Let_def mk_item_def Cons.IH print_def)
qed

lemma apply_put_simps:
  "apply_put (it, True) t = t((item_shop_id it, item_date it) \<mapsto> it)"
  "apply_put (it, False) t = t"
  by (simp_all add: apply_put_def)

lemma shop_loop_table:
  "table (snd (shop_loop e d df ss w)) = fold apply_put (attempts e d df ss (reads w)) (table w)"
proof (induction ss arbitrary: w)
  case Nil
  show ?case by simp
next
  case (Cons sid rest)
  show ?case
    by (simp add: save_simp Let_def mk_item_def Cons.IH print_def apply_put_simps fun_upd_def)
qed

lemma shop_loop_outcome:
  "fst (shop_loop e d df ss w) =
     (if list_all snd (attempts e d df ss (reads w)) then Returned else Raised ClientError)"
proof (induction ss arbitrary: w)
  case Nil
  show ?case by simp
next
  case (Cons sid rest)
  show ?case
    by (simp add: save_simp Let_def mk_item_def Cons.IH print_def)
qed

lemma shop_loop_reads:
  "reads (snd (shop_loop e d df ss w)) = reads w + length (attempts e d df ss (reads w))"
proof (induction ss arbitrary: w)
  case Nil
  show ?case by simp
next
  case (Cons sid rest)
  show ?case
    by (simp add: save_simp Let_def mk_item_def Cons.IH print_def)
qed

lemma unique_from_Nil_iff: "unique_from S xs = [] \<longleftrightarrow> set xs \<subseteq> S"
  by (induction xs arbitrary: S) auto

lemma main_unparsed:
  assumes "credentials_set e" and "\<not> parses e"
  shows "analytics_main e w = (Raised ValueError, w)"
proof -
  obtain c where c: "get_supabase_client e = Inr c"
    using assms(1) by (auto simp: credentials_set_def split: sum.splits)
  have ne: "terminal_logs e \<noteq> []"
    using assms(2) by (auto simp: parses_def to_datetime_def)
  have "to_datetime (map created_at (terminal_logs e)) = Inl ValueError"
    using assms(2) to_datetime_cases[of "map created_at (terminal_logs e)"]
    by (auto simp: parses_def)
  then show ?thesis
    using ne by (simp add: analytics_main_def fetch_table_df_def fetch_table_rows_def c)
qed

lemma main_parsed:
  assumes "credentials_set e" and "parses e"
  shows "put_log (snd (analytics_main e w)) = put_log w @ run_attempts e w"
    and "table (snd (analytics_main e w)) = fold apply_put (run_attempts e w) (table w)"
    and "fst (analytics_main e w) =
           (if list_all snd (run_attempts e w) then Returned else Raised ClientError)"
    and "reads (snd (analytics_main e w)) =
           (if terminal_logs e = [] then reads w
            else Suc (reads w) + length (run_attempts e w))"
proof -
  obtain c where c: "get_supabase_client e = Inr c"
    using assms(1) by (auto simp: credentials_set_def split: sum.splits)
  obtain ts where ts: "to_datetime (map created_at (terminal_logs e)) = Inr ts"
    using assms(2) by (auto simp: parses_def split: sum.splits)
  have df: "assign_created_at (terminal_logs e) ts = parsed_rows e"
    by (simp add: parsed_rows_def ts)
  have empty: "rows_on e (run_date e w) = [] \<Longrightarrow> run_attempts e w = []"
    by (simp add: run_attempts_def shops_on_def unique_def)
  have empty': "terminal_logs e = [] \<Longrightarrow> run_attempts e w = []"
    by (rule empty) (simp add: rows_on_def parsed_rows_parses[OF assms(2)])
  show "put_log (snd (analytics_main e w)) = put_log w @ run_attempts e w"
    using empty empty'
    by (auto simp: analytics_main_def fetch_table_df_def fetch_table_rows_def c ts df now_def
        Let_def print_def shop_loop_put_log run_attempts_def run_date_def rows_on_def
        shops_on_def)
  show "table (snd (analytics_main e w)) = fold apply_put (run_attempts e w) (table w)"
    using empty empty'
    by (auto simp: analytics_main_def fetch_table_df_def fetch_table_rows_def c ts df now_def
        Let_def print_def shop_loop_table run_attempts_def run_date_def rows_on_def
        shops_on_def)
  show "fst (analytics_main e w) =
           (if list_all snd (run_attempts e w) then Returned else Raised ClientError)"
    using empty empty'
    by (auto simp: analytics_main_def fetch_table_df_def fetch_table_rows_def c ts df now_def
        Let_def print_def shop_loop_outcome run_attempts_def run_date_def rows_on_def
        shops_on_def)
  show "reads (snd (analytics_main e w)) =
           (if terminal_logs e = [] then reads w
            else Suc (reads w) + length (run_attempts e w))"
    using empty
    by (auto simp: analytics_main_def fetch_table_df_def fetch_table_rows_def c ts df now_def
        Let_def print_def shop_loop_reads run_attempts_def run_date_def rows_on_def
        shops_on_def)
qed

lemma main_cases:
  assumes "credentials_set e"
  shows "put_log (snd (analytics_main e w)) = put_log w @ run_attempts e w"
    and "table (snd (analytics_main e w)) = fold apply_put (run_attempts e w) (table w)"
    and "fst (analytics_main e w) =
           (if \<not> parses e then Raised ValueError
            else if list_all snd (run_attempts e w) then Returned else Raised ClientError)"
proof -
  show "put_log (snd (analytics_main e w)) = put_log w @ run_attempts e w"
    by (cases "parses e")
       (simp_all add: main_parsed(1)[OF assms] main_unparsed[OF assms] run_attempts_fails)
  show "table (snd (analytics_main e w)) = fold apply_put (run_attempts e w) (table w)"
    by (cases "parses e")
       (simp_all add: main_parsed(2)[OF assms] main_unparsed[OF assms] run_attempts_fails)
  show "fst (analytics_main e w) =
           (if \<not> parses e then Raised ValueError
            else if list_all snd (run_attempts e w) then Returned else Raised ClientError)"
    by (cases "parses e")
       (simp_all add: main_parsed(3)[OF assms] main_unparsed[OF assms])
qed

lemma main_without_credentials:
  "\<not> credentials_set e \<Longrightarrow> analytics_main e w = (Raised RuntimeError, w)"
  by (auto simp: credentials_set_def analytics_main_def fetch_table_df_def fetch_table_rows_def
      get_supabase_client_def Let_def split: sum.splits if_splits)

lemma puts_of_run_main:
  "credentials_set e \<Longrightarrow> puts_of_run w (snd (analytics_main e w)) = run_attempts e w"
  by (simp add: puts_of_run_def main_cases(1))

lemma puts_of_run_any:
  "puts_of_run w (snd (analytics_main e w)) = (if credentials_set e then run_attempts e w else [])"
proof (cases "credentials_set e")
  case True
  then show ?thesis by (simp add: puts_of_run_main)
next
  case False
  then show ?thesis by (simp add: main_without_credentials puts_of_run_def)
qed

lemma puts_of_run_creds:
  "p \<in> set (puts_of_run w (snd (analytics_main e w))) \<Longrightarrow> credentials_set e \<and> parses e"
  by (auto simp: puts_of_run_any run_attempts_parses split: if_splits)

section \<open>The concrete runs evaluated\<close>

lemma put_fails_update:
  "credentials_set (e\<lparr>put_fails := f\<rparr>) = credentials_set e"
  "parses (e\<lparr>put_fails := f\<rparr>) = parses e"
  "run_date (e\<lparr>put_fails := f\<rparr>) w = run_date e w"
  "rows_on (e\<lparr>put_fails := f\<rparr>) d = rows_on e d"
  "shops_on (e\<lparr>put_fails := f\<rparr>) d = shops_on e d"
  by (simp_all add: credentials_set_def get_supabase_client_def parses_def run_date_def
      shops_on_def rows_on_def parsed_rows_def split: sum.splits)

lemma example_credentials: "credentials_set (example_env rows)"
  by (simp add: credentials_set_def get_supabase_client_def example_env_def truthy_def py_or_def)

lemma example_run_date_any:
  "run_date (example_env rows) w = 20473" if "reads w \<le> 59"
  using that
  by (simp add: run_date_def example_env_def target_date_def hour_of_at_time date_of_at_time)

lemma example_run_date: "run_date (example_env rows) example_world = 20473"
  by (rule example_run_date_any) (simp add: example_world_def)

lemma example_parses: "parses (example_env example_rows)"
  by (simp add: parses_def to_datetime_def example_env_def example_rows_def)

lemma mixed_parses: "parses (example_env mixed_rows)"
  by (simp add: parses_def to_datetime_def example_env_def mixed_rows_def)

lemma example_shops: "shops_on (example_env example_rows) 20473 = [''A'']"
  by (subst shops_on_parses[OF example_parses])
     (simp add: example_env_def example_rows_def utc_date_def date_of_at_time unique_def)

lemma mixed_shops: "shops_on (example_env mixed_rows) 20473 = [''A'', ''B'', ''C'']"
  by (subst shops_on_parses[OF mixed_parses])
     (simp add: example_env_def mixed_rows_def utc_date_def date_of_at_time unique_def)

lemma example_customers:
  "customers example_rows ''A'' 20473 = {''+6581234567'', ''+6587654321''}"
  by (auto simp: customers_def example_rows_def utc_date_def date_of_at_time)

lemma failing_credentials: "credentials_set (failing_env rows)"
  by (simp add: failing_env_def put_fails_update example_credentials)

lemma failing_run_date: "run_date (failing_env rows) example_world = 20473"
  by (simp add: failing_env_def put_fails_update example_run_date)

lemma failing_parses: "parses (failing_env mixed_rows)"
  by (simp add: failing_env_def put_fails_update mixed_parses)

lemma failing_shops: "shops_on (failing_env mixed_rows) 20473 = [''A'', ''B'', ''C'']"
  by (simp add: failing_env_def put_fails_update mixed_shops)

lemma failing_run_attempts:
  "map (\<lambda>p. (item_shop_id (fst p), snd p)) (run_attempts (failing_env mixed_rows) example_world) =
     [(''A'', True), (''B'', False)]"
  by (simp add: run_attempts_def failing_run_date failing_shops mk_item_def)
     (simp add: failing_env_def example_env_def)

section \<open>What a run writes\<close>

lemma set_dropna: "set (dropna xs) = {x. Some x \<in> set xs}"
  by (induction xs rule: dropna.induct) auto

lemma count_unique_customers_card:
  "count_unique_customers df sid =
     int (card {p. \<exists>r\<in>set df. shop_id r = Some sid \<and> phone_number r = Some p})"
proof -
  have "set (dropna (map phone_number (filter (\<lambda>r. shop_id r = Some sid) df))) =
        {p. \<exists>r\<in>set df. shop_id r = Some sid \<and> phone_number r = Some p}"
    by (auto simp: set_dropna image_iff)
  then show ?thesis
    by (simp add: count_unique_customers_def nunique_def astype_str_def Let_def
        card_set[symmetric])
qed

lemma count_rows_on:
  assumes "parses e"
  shows "count_unique_customers (rows_on e d) sid = int (card (customers (terminal_logs e) sid d))"
proof -
  have "{p. \<exists>r\<in>set (rows_on e d). shop_id r = Some sid \<and> phone_number r = Some p} =
        customers (terminal_logs e) sid d"
    by (auto simp: rows_on_parses[OF assms] customers_def parsed_fields)
  then show ?thesis
    by (simp add: count_unique_customers_card)
qed

lemma attempts_items:
  "p \<in> set (attempts e d df ss k) \<Longrightarrow>
     \<exists>sid\<in>set ss. \<exists>i. fst p = mk_item e d df sid i"
  by (induction ss arbitrary: k) (auto split: if_splits)

lemma attempts_all_ok:
  "\<forall>it. item_shop_id it \<in> set ss \<longrightarrow> \<not> put_fails e it \<Longrightarrow>
     map (\<lambda>p. (item_shop_id (fst p), snd p)) (attempts e d df ss k) = map (\<lambda>s. (s, True)) ss"
proof (induction ss arbitrary: k)
  case Nil
  show ?case by simp
next
  case (Cons sid rest)
  have "\<not> put_fails e (mk_item e d df sid k)"
    using Cons.prems by (simp add: mk_item_def)
  moreover have "\<forall>it. item_shop_id it \<in> set rest \<longrightarrow> \<not> put_fails e it"
    using Cons.prems by simp
  ultimately show ?case
    using Cons.IH[of "Suc k"] by (simp add: mk_item_def)
qed

lemma attempts_append_ok:
  "\<forall>it. item_shop_id it \<in> set pre \<longrightarrow> \<not> put_fails e it \<Longrightarrow>
     attempts e d df (pre @ rest) k =
       attempts e d df pre k @ attempts e d df rest (k + length pre)"
proof (induction pre arbitrary: k)
  case Nil
  show ?case by simp
next
  case (Cons sid pre)
  have "\<not> put_fails e (mk_item e d df sid k)"
    using Cons.prems by (simp add: mk_item_def)
  moreover have "\<forall>it. item_shop_id it \<in> set pre \<longrightarrow> \<not> put_fails e it"
    using Cons.prems by simp
  ultimately show ?case
    using Cons.IH[of "Suc k"] by simp
qed

lemma attempts_shops:
  "map (\<lambda>p. item_shop_id (fst p)) (attempts e d df ss k) =
     take (length (attempts e d df ss k)) ss"
  by (induction ss arbitrary: k) (simp_all add: mk_item_def)

lemma attempts_before_last:
  "Suc i < length (attempts e d df ss k) \<Longrightarrow> snd (attempts e d df ss k ! i)"
proof (induction ss arbitrary: k i)
  case Nil
  then show ?case by simp
next
  case (Cons sid rest)
  show ?case
  proof (cases "put_fails e (mk_item e d df sid k)")
    case True
    with Cons.prems show ?thesis by simp
  next
    case False
    show ?thesis
    proof (cases i)
      case 0
      with False show ?thesis by simp
    next
      case (Suc i')
      with False Cons.prems have "Suc i' < length (attempts e d df rest (Suc k))"
        by simp
      from Cons.IH[OF this] show ?thesis
        using False Suc by simp
    qed
  qed
qed

lemma attempts_returned:
  "list_all snd (attempts e d df ss k) \<Longrightarrow>
     map (\<lambda>p. (item_shop_id (fst p), snd p)) (attempts e d df ss k) = map (\<lambda>s. (s, True)) ss \<and>
     map (\<lambda>p. summary_core (fst p)) (attempts e d df ss k) =
       map (\<lambda>s. (s, d, count_unique_customers df s)) ss \<and>
     map (\<lambda>p. item_updated_at (fst p)) (attempts e d df ss k) =
       map (clock e) [k..<k + length ss]"
proof (induction ss arbitrary: k)
  case Nil
  show ?case by simp
next
  case (Cons sid rest)
  have ok: "\<not> put_fails e (mk_item e d df sid k)"
    using Cons.prems by (auto split: if_splits)
  then have "list_all snd (attempts e d df rest (Suc k))"
    using Cons.prems by simp
  from Cons.IH[OF this] show ?case
    using ok by (simp add: mk_item_def summary_core_def upt_conv_Cons del: upt_Suc)
qed

lemma fold_apply_put_other:
  "\<forall>p\<in>set A. snd p \<longrightarrow> (item_shop_id (fst p), item_date (fst p)) \<noteq> key \<Longrightarrow>
     fold apply_put A t key = t key"
  by (induction A arbitrary: t) (auto simp: apply_put_def)

lemma fold_apply_put_distinct:
  "distinct (map (\<lambda>p. item_shop_id (fst p)) A) \<Longrightarrow> (it, True) \<in> set A \<Longrightarrow>
     fold apply_put A t (item_shop_id it, item_date it) = Some it"
proof (induction A arbitrary: t rule: rev_induct)
  case Nil
  then show ?case by simp
next
  case (snoc p A)
  show ?case
  proof (cases "p = (it, True)")
    case True
    then show ?thesis by (simp add: apply_put_def)
  next
    case False
    then have mem: "(it, True) \<in> set A"
      using snoc.prems(2) by auto
    have "item_shop_id (fst (it, True)) \<in> (\<lambda>p. item_shop_id (fst p)) ` set A"
      using mem by (rule imageI)
    moreover have "item_shop_id (fst p) \<notin> (\<lambda>p. item_shop_id (fst p)) ` set A"
      using snoc.prems(1) by simp
    ultimately have "item_shop_id (fst p) \<noteq> item_shop_id it"
      by (metis fst_conv)
    then have "fold apply_put (A @ [p]) t (item_shop_id it, item_date it) =
               fold apply_put A t (item_shop_id it, item_date it)"
      by (simp add: apply_put_def)
    moreover have "distinct (map (\<lambda>p. item_shop_id (fst p)) A)"
      using snoc.prems(1) by simp
    ultimately show ?thesis
      using snoc.IH[OF _ mem] by simp
  qed
qed

lemma set_unique_from: "set (unique_from S xs) = set xs - S"
  by (induction xs arbitrary: S) auto

lemma distinct_unique_from: "distinct (unique_from S xs)"
  by (induction xs arbitrary: S) (auto simp: set_unique_from)

lemma distinct_shops_on: "distinct (shops_on e d)"
  by (simp add: shops_on_def unique_def distinct_unique_from)

lemma set_shops_on:
  assumes "parses e"
  shows "set (shops_on e d) =
     {sid. \<exists>r\<in>set (terminal_logs e). shop_id r = Some sid \<and> utc_date (created_at r) = Some d}"
  by (auto simp: shops_on_parses[OF assms] unique_def set_unique_from set_dropna image_iff)

lemma run_attempts_shops:
  "map (\<lambda>p. item_shop_id (fst p)) (run_attempts e w) =
     take (length (run_attempts e w)) (shops_on e (run_date e w))"
  unfolding run_attempts_def by (rule attempts_shops)

lemma distinct_run_attempts: "distinct (map (\<lambda>p. item_shop_id (fst p)) (run_attempts e w))"
  by (simp add: run_attempts_shops distinct_shops_on)

lemma run_attempts_items:
  assumes "p \<in> set (run_attempts e w)"
  shows "item_date (fst p) = run_date e w \<and>
         item_unique_customers (fst p) =
           int (card (customers (terminal_logs e) (item_shop_id (fst p)) (run_date e w)))"
proof -
  from attempts_items[OF assms[unfolded run_attempts_def]]
  obtain sid i where "fst p = mk_item e (run_date e w) (rows_on e (run_date e w)) sid i"
    by blast
  then show ?thesis
    by (simp add: mk_item_def count_rows_on[OF run_attempts_parses[OF assms]])
qed

lemma run_written:
  assumes "(it, True) \<in> set (run_attempts e w)"
  shows "fold apply_put (run_attempts e w) t (item_shop_id it, run_date e w) = Some it"
  using fold_apply_put_distinct[OF distinct_run_attempts assms, of t] run_attempts_items[OF assms]
  by simp

lemma table_written:
  assumes "(it, True) \<in> set (puts_of_run w (snd (analytics_main e w)))"
  shows "table (snd (analytics_main e w)) (item_shop_id it, run_date e w) = Some it"
proof -
  have creds: "credentials_set e"
    using puts_of_run_creds[OF assms] by simp
  then have "(it, True) \<in> set (run_attempts e w)"
    using assms by (simp add: puts_of_run_main)
  from run_written[OF this] show ?thesis
    by (simp add: main_cases(2)[OF creds])
qed

lemma table_changed:
  assumes "table (snd (analytics_main e w)) key \<noteq> table w key"
  shows "\<exists>it. (it, True) \<in> set (puts_of_run w (snd (analytics_main e w))) \<and>
              key = (item_shop_id it, run_date e w) \<and>
              table (snd (analytics_main e w)) key = Some it"
proof -
  have creds: "credentials_set e"
    using assms by (cases "credentials_set e") (simp_all add: main_without_credentials)
  have t: "table (snd (analytics_main e w)) = fold apply_put (run_attempts e w) (table w)"
    by (rule main_cases(2)[OF creds])
  have "\<not> (\<forall>p\<in>set (run_attempts e w). snd p \<longrightarrow>
              (item_shop_id (fst p), item_date (fst p)) \<noteq> key)"
    using assms fold_apply_put_other[of "run_attempts e w" key "table w"] by (auto simp: t)
  then obtain it where it: "(it, True) \<in> set (run_attempts e w)"
      "(item_shop_id it, item_date it) = key"
    by (metis prod.collapse)
  have "key = (item_shop_id it, run_date e w)"
    using it(2) run_attempts_items[OF it(1)] by auto
  then show ?thesis
    using it(1) run_written[OF it(1), of "table w"] by (auto simp: t puts_of_run_main[OF creds])
qed

lemma run_attempts_all_ok:
  assumes "\<forall>it. \<not> put_fails e it"
  shows "map (\<lambda>p. (item_shop_id (fst p), snd p)) (run_attempts e w) =
           map (\<lambda>s. (s, True)) (shops_on e (run_date e w))"
  unfolding run_attempts_def by (rule attempts_all_ok) (simp add: assms)

lemma attempt_of_shop:
  assumes "(sid, True) \<in> set (map (\<lambda>p. (item_shop_id (fst p), snd p)) (run_attempts e w))"
  shows "\<exists>it. (it, True) \<in> set (run_attempts e w) \<and> item_shop_id it = sid"
  using assms by auto

text \<open>
  C1. Every item the run passes to \<open>put_item\<close> carries the target date and, as
  \<open>unique_customers\<close>, the number of distinct non-null phone numbers among the fetched
  rows of its shop whose \<open>created_at\<close> falls on the target date (UTC); every entry of the
  table that the run has changed is such an item, stored under its \<open>(shop_id, date)\<close>.
  When the credentials are set, the timestamps parse and no write fails, every shop with a
  row on the target date has such an item in the table after the run.
\<close>

theorem unique_customers_is_distinct_phone_count:
  "(\<forall>p\<in>set (puts_of_run w (snd (analytics_main e w))).
      item_date (fst p) = run_date e w \<and>
      item_unique_customers (fst p) =
        int (card (customers (terminal_logs e) (item_shop_id (fst p)) (run_date e w)))) \<and>
   (\<forall>shop d it.
      table (snd (analytics_main e w)) (shop, d) = Some it \<and>
      table (snd (analytics_main e w)) (shop, d) \<noteq> table w (shop, d) \<longrightarrow>
      d = run_date e w \<and> item_shop_id it = shop \<and> item_date it = d \<and>
      item_unique_customers it = int (card (customers (terminal_logs e) shop d))) \<and>
   (credentials_set e \<and> parses e \<and> (\<forall>it. \<not> put_fails e it) \<and>
    (\<exists>r\<in>set (terminal_logs e). shop_id r = Some sid \<and>
          utc_date (created_at r) = Some (run_date e w)) \<longrightarrow>
    (\<exists>it. table (snd (analytics_main e w)) (sid, run_date e w) = Some it \<and>
          item_shop_id it = sid \<and> item_date it = run_date e w \<and>
          item_unique_customers it =
            int (card (customers (terminal_logs e) sid (run_date e w)))))"
proof -
  have puts: "item_date (fst p) = run_date e w \<and>
      item_unique_customers (fst p) =
        int (card (customers (terminal_logs e) (item_shop_id (fst p)) (run_date e w)))"
    if "p \<in> set (puts_of_run w (snd (analytics_main e w)))" for p
  proof -
    from that have p: "p \<in> set (run_attempts e w)"
      by (auto simp: puts_of_run_any split: if_splits)
    from run_attempts_items[OF p] show ?thesis .
  qed
  have entries: "d = run_date e w \<and> item_shop_id it = shop \<and> item_date it = d \<and>
        item_unique_customers it = int (card (customers (terminal_logs e) shop d))"
    if a: "table (snd (analytics_main e w)) (shop, d) = Some it \<and>
           table (snd (analytics_main e w)) (shop, d) \<noteq> table w (shop, d)" for shop d it
  proof -
    from a obtain it' where it': "(it', True) \<in> set (puts_of_run w (snd (analytics_main e w)))"
        "(shop, d) = (item_shop_id it', run_date e w)"
        "table (snd (analytics_main e w)) (shop, d) = Some it'"
      using table_changed[of e w "(shop, d)"] by blast
    have eq: "it' = it"
      using a it'(3) by simp
    have "(it, True) \<in> set (run_attempts e w)"
      using it'(1) by (auto simp: eq puts_of_run_any split: if_splits)
    from run_attempts_items[OF this] it'(2) show ?thesis
      by (simp add: eq)
  qed
  have stored: "\<exists>it. table (snd (analytics_main e w)) (sid, run_date e w) = Some it \<and>
          item_shop_id it = sid \<and> item_date it = run_date e w \<and>
          item_unique_customers it =
            int (card (customers (terminal_logs e) sid (run_date e w)))"
    if a: "credentials_set e \<and> parses e \<and> (\<forall>it. \<not> put_fails e it) \<and>
      (\<exists>r\<in>set (terminal_logs e). shop_id r = Some sid \<and>
            utc_date (created_at r) = Some (run_date e w))"
  proof -
    from a have creds: "credentials_set e" and par: "parses e" and ok: "\<forall>it. \<not> put_fails e it"
      by simp_all
    have "sid \<in> set (shops_on e (run_date e w))"
      using a by (simp add: set_shops_on[OF par])
    then have "(sid, True) \<in> set (map (\<lambda>p. (item_shop_id (fst p), snd p)) (run_attempts e w))"
      by (simp add: run_attempts_all_ok[OF ok] image_iff)
    then obtain it where it: "(it, True) \<in> set (run_attempts e w)" "item_shop_id it = sid"
      by auto
    show ?thesis
      using it run_written[OF it(1), of "table w"] run_attempts_items[OF it(1)]
      by (simp add: main_cases(2)[OF creds])
  qed
  show ?thesis
    using puts entries stored by blast
qed

theorem unique_customers_is_distinct_phone_count_witness:
  "map (\<lambda>p. (item_shop_id (fst p), item_date (fst p), item_unique_customers (fst p), snd p))
     (puts_of_run example_world (snd (analytics_main (example_env example_rows) example_world))) =
     [(''A'', 20473, 2, True)] \<and>
   (\<exists>it. table (snd (analytics_main (example_env example_rows) example_world)) (''A'', 20473) =
           Some it \<and>
         item_shop_id it = ''A'' \<and> item_date it = 20473 \<and> item_unique_customers it = 2)"
proof -
  let ?e = "example_env example_rows"
  have r: "\<exists>r\<in>set (terminal_logs ?e). shop_id r = Some ''A'' \<and>
             utc_date (created_at r) = Some (run_date ?e example_world)"
    by (simp add: example_run_date)
       (simp add: example_env_def example_rows_def utc_date_def date_of_at_time)
  have ok: "\<forall>it. \<not> put_fails ?e it"
    by (simp add: example_env_def)
  have t: "terminal_logs ?e = example_rows"
    by (simp add: example_env_def)
  have puts: "map (\<lambda>p. (item_shop_id (fst p), snd p))
                (puts_of_run example_world (snd (analytics_main ?e example_world))) =
              [(''A'', True)]"
    by (simp add: puts_of_run_main[OF example_credentials] run_attempts_all_ok[OF ok]
        example_run_date example_shops)
  then obtain p where p: "puts_of_run example_world (snd (analytics_main ?e example_world)) = [p]"
      "item_shop_id (fst p) = ''A''" "snd p"
    by auto
  note inst = unique_customers_is_distinct_phone_count[where e = ?e and w = example_world
      and sid = "''A''"]
  have "item_date (fst p) = 20473 \<and> item_unique_customers (fst p) = 2"
    using inst p by (simp add: example_run_date t example_customers)
  moreover have "\<exists>it. table (snd (analytics_main ?e example_world)) (''A'', 20473) = Some it \<and>
         item_shop_id it = ''A'' \<and> item_date it = 20473 \<and> item_unique_customers it = 2"
    using inst r ok example_credentials[of example_rows] example_parses
    by (simp add: example_run_date t example_customers)
  ultimately show ?thesis
    using p by simp
qed

section \<open>The order of the writes\<close>

lemma unique_from_append:
  "unique_from S (xs @ ys) = unique_from S xs @ unique_from (S \<union> set xs) ys"
  by (induction xs arbitrary: S) (auto simp: insert_absorb)

lemma dropna_append: "dropna (xs @ ys) = dropna xs @ dropna ys"
  by (induction xs rule: dropna.induct) auto

lemma shops_on_first_appearance:
  assumes par: "parses e"
    and rows: "terminal_logs e = pre @ ra # rest"
    and ra: "shop_id ra = Some a" "utc_date (created_at ra) = Some d"
    and pre: "\<forall>r\<in>set pre. utc_date (created_at r) = Some d \<longrightarrow>
                shop_id r \<noteq> Some a \<and> shop_id r \<noteq> Some b"
    and b: "b \<in> set (shops_on e d)"
    and ab: "a \<noteq> b"
  shows "\<exists>ps1 ps2 ps3. shops_on e d = ps1 @ a # ps2 @ b # ps3"
proof -
  define ids where
    "ids rows = dropna (map shop_id (filter (\<lambda>r. utc_date (created_at r) = Some d) rows))"
    for rows :: "timestamp_text log_record list"
  have a_pre: "a \<notin> set (ids pre)" and b_pre: "b \<notin> set (ids pre)"
    using pre by (auto simp: ids_def set_dropna)
  have "shops_on e d = unique_from {} (ids pre @ a # ids rest)"
    using ra by (simp add: shops_on_parses[OF par] unique_def rows ids_def dropna_append)
  also have "\<dots> = unique_from {} (ids pre) @ a # unique_from (insert a (set (ids pre))) (ids rest)"
    using a_pre by (simp add: unique_from_append)
  finally have eq: "shops_on e d =
      unique_from {} (ids pre) @ a # unique_from (insert a (set (ids pre))) (ids rest)" .
  have "b \<notin> set (unique_from {} (ids pre))"
    using b_pre by (simp add: set_unique_from)
  then have "b \<in> set (unique_from (insert a (set (ids pre))) (ids rest))"
    using b ab by (simp add: eq)
  then obtain ps2 ps3 where "unique_from (insert a (set (ids pre))) (ids rest) = ps2 @ b # ps3"
    by (auto dest: split_list)
  with eq show ?thesis by auto
qed

lemma nth_decomposition:
  assumes "distinct xs" and "xs = ps1 @ a # ps2 @ b # ps3" and "j < length xs" and "xs ! j = b"
  shows "length ps1 < j \<and> xs ! length ps1 = a"
proof -
  let ?jb = "length ps1 + 1 + length ps2"
  have "?jb < length xs" "xs ! ?jb = b"
    by (simp_all add: assms(2) nth_append)
  then have "j = ?jb"
    using nth_eq_iff_index_eq[OF assms(1) assms(3), of ?jb] assms(4) by simp
  then show ?thesis
    by (simp add: assms(2))
qed

text \<open>
  C7, as stated, fails: a shop is written only if the run gets to it. In the store that
  rejects the writes for shop B, the rows of the target date name the shops A, B and C in
  this order; the run calls \<open>put_item\<close> for A and for B, the call for B fails and ends
  the run, and neither B nor C, whose first row comes after B's, has a summary.
\<close>

theorem later_shop_is_not_written:
  "map (\<lambda>r. (shop_id r, utc_date (created_at r))) mixed_rows =
     [(Some ''A'', Some 20473), (None, Some 20473), (Some ''B'', Some 20473),
      (Some ''A'', Some 20473), (Some ''C'', Some 20473)] \<and>
   run_date (failing_env mixed_rows) example_world = 20473 \<and>
   map (\<lambda>p. (item_shop_id (fst p), snd p))
     (puts_of_run example_world (snd (analytics_main (failing_env mixed_rows) example_world))) =
     [(''A'', True), (''B'', False)] \<and>
   table (snd (analytics_main (failing_env mixed_rows) example_world)) (''B'', 20473) = None \<and>
   table (snd (analytics_main (failing_env mixed_rows) example_world)) (''C'', 20473) = None"
proof -
  let ?e = "failing_env mixed_rows"
  let ?w = "snd (analytics_main ?e example_world)"
  have rows: "map (\<lambda>r. (shop_id r, utc_date (created_at r))) mixed_rows =
     [(Some ''A'', Some 20473), (None, Some 20473), (Some ''B'', Some 20473),
      (Some ''A'', Some 20473), (Some ''C'', Some 20473)]"
    by (simp add: mixed_rows_def utc_date_def date_of_at_time)
  have puts: "map (\<lambda>p. (item_shop_id (fst p), snd p)) (puts_of_run example_world ?w) =
     [(''A'', True), (''B'', False)]"
    by (simp add: puts_of_run_main[OF failing_credentials] failing_run_attempts)
  have none: "table ?w (s, 20473) = None" if "s \<noteq> ''A''" for s
  proof -
    have "\<forall>p\<in>set (run_attempts ?e example_world). snd p \<longrightarrow>
            (item_shop_id (fst p), item_date (fst p)) \<noteq> (s, 20473)"
    proof (intro ballI impI)
      fix p assume p: "p \<in> set (run_attempts ?e example_world)" "snd p"
      then have "(item_shop_id (fst p), snd p) \<in>
                 set (map (\<lambda>p. (item_shop_id (fst p), snd p)) (run_attempts ?e example_world))"
        by (simp add: image_iff) blast
      then have "item_shop_id (fst p) = ''A''"
        using p(2) by (auto simp: failing_run_attempts)
      then show "(item_shop_id (fst p), item_date (fst p)) \<noteq> (s, 20473)"
        using that by auto
    qed
    from fold_apply_put_other[OF this, of "table example_world"] show ?thesis
      by (simp add: main_cases(2)[OF failing_credentials] example_world_def)
  qed
  show ?thesis
    using rows puts none[of "''B''"] none[of "''C''"] by (simp add: failing_run_date)
qed

text \<open>
  C7, amended. The shops for which the run calls \<open>put_item\<close>, in the order of the calls,
  are an initial segment of the shops in the order in which they first appear among the rows
  of the target date, that is of \<open>unique\<close> of the non-null \<open>shop_id\<close> column of those
  rows, and no shop is written twice; when the run returns normally the segment is the whole
  sequence and every call has succeeded. So for two shops A and B, where the first row of A
  on the target date precedes every row of B on that date, whenever a call is made for B a
  call for A has been made before it, and has succeeded.
\<close>

theorem upserts_in_first_appearance_order:
  "map (\<lambda>p. item_shop_id (fst p)) (puts_of_run w (snd (analytics_main e w))) =
     take (length (puts_of_run w (snd (analytics_main e w))))
       (unique (dropna (map shop_id (rows_on e (run_date e w))))) \<and>
   distinct (map (\<lambda>p. item_shop_id (fst p)) (puts_of_run w (snd (analytics_main e w)))) \<and>
   (fst (analytics_main e w) = Returned \<longrightarrow>
      map (\<lambda>p. (item_shop_id (fst p), snd p)) (puts_of_run w (snd (analytics_main e w))) =
        map (\<lambda>s. (s, True)) (unique (dropna (map shop_id (rows_on e (run_date e w)))))) \<and>
   (terminal_logs e = pre @ ra # rest \<and> shop_id ra = Some a \<and>
    utc_date (created_at ra) = Some (run_date e w) \<and>
    (\<forall>r\<in>set pre. utc_date (created_at r) = Some (run_date e w) \<longrightarrow>
         shop_id r \<noteq> Some a \<and> shop_id r \<noteq> Some b) \<and>
    a \<noteq> b \<and> j < length (puts_of_run w (snd (analytics_main e w))) \<and>
    item_shop_id (fst (puts_of_run w (snd (analytics_main e w)) ! j)) = b \<longrightarrow>
    (\<exists>i<j. item_shop_id (fst (puts_of_run w (snd (analytics_main e w)) ! i)) = a \<and>
           snd (puts_of_run w (snd (analytics_main e w)) ! i)))"
proof (cases "credentials_set e")
  case False
  then show ?thesis
    by (simp add: main_without_credentials puts_of_run_def)
next
  case creds: True
  let ?puts = "puts_of_run w (snd (analytics_main e w))"
  let ?d = "run_date e w"
  have puts: "?puts = run_attempts e w"
    by (rule puts_of_run_main[OF creds])
  have prefix: "map (\<lambda>p. item_shop_id (fst p)) ?puts = take (length ?puts) (shops_on e ?d)"
    by (simp add: puts run_attempts_shops)
  have dist: "distinct (map (\<lambda>p. item_shop_id (fst p)) ?puts)"
    by (simp add: puts distinct_run_attempts)
  have whole: "map (\<lambda>p. (item_shop_id (fst p), snd p)) ?puts =
        map (\<lambda>s. (s, True)) (shops_on e ?d)"
    if "fst (analytics_main e w) = Returned"
  proof -
    have "list_all snd (run_attempts e w)"
      using that by (simp add: main_cases(3)[OF creds] split: if_splits)
    then show ?thesis
      unfolding puts run_attempts_def by (simp add: attempts_returned)
  qed
  have order: "\<exists>i<j. item_shop_id (fst (?puts ! i)) = a \<and> snd (?puts ! i)"
    if h: "terminal_logs e = pre @ ra # rest \<and> shop_id ra = Some a \<and>
           utc_date (created_at ra) = Some ?d \<and>
           (\<forall>r\<in>set pre. utc_date (created_at r) = Some ?d \<longrightarrow>
                shop_id r \<noteq> Some a \<and> shop_id r \<noteq> Some b) \<and>
           a \<noteq> b \<and> j < length ?puts \<and> item_shop_id (fst (?puts ! j)) = b"
  proof -
    from h have j: "j < length ?puts" "item_shop_id (fst (?puts ! j)) = b"
      by simp_all
    have "?puts ! j \<in> set (run_attempts e w)"
      using j(1) by (simp add: puts)
    then have par: "parses e"
      by (rule run_attempts_parses)
    have len: "length ?puts \<le> length (shops_on e ?d)"
      using arg_cong[OF prefix, of length] by simp
    have nth: "item_shop_id (fst (?puts ! k)) = shops_on e ?d ! k" if "k < length ?puts" for k
      using that arg_cong[OF prefix, of "\<lambda>xs. xs ! k"] by simp
    have jb: "j < length (shops_on e ?d)" "shops_on e ?d ! j = b"
      using j len nth[of j] by simp_all
    then have "b \<in> set (shops_on e ?d)"
      by (auto simp: in_set_conv_nth)
    from shops_on_first_appearance[OF par _ _ _ _ this, of pre ra rest a] h
    obtain ps1 ps2 ps3 where dec: "shops_on e ?d = ps1 @ a # ps2 @ b # ps3"
      by blast
    from nth_decomposition[OF distinct_shops_on dec jb]
    have i: "length ps1 < j" "shops_on e ?d ! length ps1 = a"
      by simp_all
    have "Suc (length ps1) < length (run_attempts e w)"
      using i(1) j(1) by (simp add: puts)
    then have "snd (run_attempts e w ! length ps1)"
      unfolding run_attempts_def by (rule attempts_before_last)
    moreover have "item_shop_id (fst (?puts ! length ps1)) = a"
      using nth[of "length ps1"] i j(1) by simp
    ultimately show ?thesis
      using i(1) by (auto simp: puts)
  qed
  show ?thesis
    using prefix dist whole order by (simp add: shops_on_def)
qed

theorem upserts_in_first_appearance_order_witness:
  "fst (analytics_main (example_env mixed_rows) example_world) = Returned \<and>
   map (\<lambda>p. (item_shop_id (fst p), snd p))
     (puts_of_run example_world (snd (analytics_main (example_env mixed_rows) example_world))) =
   [(''A'', True), (''B'', True), (''C'', True)] \<and>
   (\<exists>i<1. item_shop_id (fst (puts_of_run example_world
              (snd (analytics_main (example_env mixed_rows) example_world)) ! i)) = ''A'')"
proof -
  let ?e = "example_env mixed_rows"
  let ?puts = "puts_of_run example_world (snd (analytics_main ?e example_world))"
  have ok: "\<forall>it. \<not> put_fails ?e it"
    by (simp add: example_env_def)
  have all: "map (\<lambda>p. (item_shop_id (fst p), snd p)) (run_attempts ?e example_world) =
             [(''A'', True), (''B'', True), (''C'', True)]"
    by (simp add: run_attempts_all_ok[OF ok] example_run_date mixed_shops)
  then have "map snd (run_attempts ?e example_world) = [True, True, True]"
    by (auto simp: map_eq_Cons_conv)
  then have "list_all snd (run_attempts ?e example_world)"
    by (auto simp: map_eq_Cons_conv)
  then have ret: "fst (analytics_main ?e example_world) = Returned"
    by (simp add: main_cases(3)[OF example_credentials] mixed_parses)
  have shops: "unique (dropna (map shop_id (rows_on ?e 20473))) = [''A'', ''B'', ''C'']"
    using mixed_shops by (simp add: shops_on_def)
  have rows: "terminal_logs ?e = [] @ hd mixed_rows # tl mixed_rows"
    by (simp add: example_env_def mixed_rows_def)
  have ra: "shop_id (hd mixed_rows) = Some ''A''"
    "utc_date (created_at (hd mixed_rows)) = Some 20473"
    by (simp_all add: mixed_rows_def utc_date_def date_of_at_time)
  note inst = upserts_in_first_appearance_order[where e = ?e and w = example_world
      and pre = "[]" and ra = "hd mixed_rows" and rest = "tl mixed_rows"
      and a = "''A''" and b = "''B''" and j = 1]
  have whole: "map (\<lambda>p. (item_shop_id (fst p), snd p)) ?puts =
               [(''A'', True), (''B'', True), (''C'', True)]"
    using inst ret by (simp add: example_run_date shops)
  then have j: "1 < length ?puts" "item_shop_id (fst (?puts ! 1)) = ''B''"
    by (auto simp: map_eq_Cons_conv)
  have "\<exists>i<1. item_shop_id (fst (?puts ! i)) = ''A'' \<and> snd (?puts ! i)"
    using inst rows ra j by (simp add: example_run_date)
  then show ?thesis
    using ret whole by auto
qed

text \<open>
  C5. When the write for a shop fails and the writes for the shops before it in the
  iteration order succeed, the run ends with the error raised: \<open>put_item\<close> was called
  successfully for exactly the shops before the failing one, once and unsuccessfully for
  the failing one (no retry), and not at all for the shops after it; the items of the
  earlier shops stay in the table, and the entries of the failing shop and of the remaining
  shops are what they were before the run.
\<close>

theorem failed_upsert_aborts_loop:
  assumes creds: "credentials_set e"
    and shops: "unique (dropna (map shop_id (rows_on e (run_date e w)))) = pre @ sid # post"
    and ok: "\<forall>it. item_shop_id it \<in> set pre \<longrightarrow> \<not> put_fails e it"
    and bad: "\<forall>it. item_shop_id it = sid \<longrightarrow> put_fails e it"
  shows "fst (analytics_main e w) = Raised ClientError \<and>
         map (\<lambda>p. (item_shop_id (fst p), snd p)) (puts_of_run w (snd (analytics_main e w))) =
           map (\<lambda>s. (s, True)) pre @ [(sid, False)] \<and>
         (\<forall>s\<in>set pre. \<exists>it. table (snd (analytics_main e w)) (s, run_date e w) = Some it \<and>
              item_shop_id it = s \<and> (it, True) \<in> set (puts_of_run w (snd (analytics_main e w)))) \<and>
         (\<forall>s\<in>set (sid # post). table (snd (analytics_main e w)) (s, run_date e w) =
              table w (s, run_date e w))"
proof -
  let ?d = "run_date e w"
  let ?df = "rows_on e ?d"
  let ?k = "Suc (reads w)"
  let ?last = "mk_item e ?d ?df sid (?k + length pre)"
  have sh: "shops_on e ?d = pre @ sid # post"
    using shops by (simp add: shops_on_def)
  have par: "parses e"
    using sh by (cases "parses e") (simp_all add: shops_on_def rows_on_fails unique_def)
  have fails: "put_fails e ?last"
    using bad by (simp add: mk_item_def)
  have A: "run_attempts e w = attempts e ?d ?df pre ?k @ [(?last, False)]"
    using fails by (simp add: run_attempts_def sh attempts_append_ok[OF ok])
  have P: "map (\<lambda>p. (item_shop_id (fst p), snd p)) (attempts e ?d ?df pre ?k) =
           map (\<lambda>s. (s, True)) pre"
    by (rule attempts_all_ok[OF ok])
  have log: "map (\<lambda>p. (item_shop_id (fst p), snd p)) (run_attempts e w) =
             map (\<lambda>s. (s, True)) pre @ [(sid, False)]"
    by (simp add: A P mk_item_def)
  have out: "fst (analytics_main e w) = Raised ClientError"
    by (simp add: main_cases(3)[OF creds] par A)
  have dist: "distinct (pre @ sid # post)"
    using distinct_shops_on[of e ?d] by (simp add: sh)
  have written: "\<exists>it. table (snd (analytics_main e w)) (s, ?d) = Some it \<and>
              item_shop_id it = s \<and> (it, True) \<in> set (run_attempts e w)"
    if s: "s \<in> set pre" for s
  proof -
    have "(s, True) \<in> set (map (\<lambda>p. (item_shop_id (fst p), snd p)) (run_attempts e w))"
      using s by (simp add: log image_iff)
    then obtain it where it: "(it, True) \<in> set (run_attempts e w)" "item_shop_id it = s"
      by auto
    from run_written[OF it(1), of "table w"] it show ?thesis
      by (auto simp: main_cases(2)[OF creds])
  qed
  have untouched: "table (snd (analytics_main e w)) (s, ?d) = table w (s, ?d)"
    if s: "s \<in> set (sid # post)" for s
  proof -
    have notpre: "s \<notin> set pre"
      using s dist by auto
    have "\<forall>p\<in>set (run_attempts e w). snd p \<longrightarrow> (item_shop_id (fst p), item_date (fst p)) \<noteq> (s, ?d)"
    proof (intro ballI impI)
      fix p assume p: "p \<in> set (run_attempts e w)" "snd p"
      then have "(item_shop_id (fst p), snd p) \<in>
                 set (map (\<lambda>p. (item_shop_id (fst p), snd p)) (run_attempts e w))"
        by (simp add: image_iff)  blast
      then have "item_shop_id (fst p) \<in> set pre"
        using p(2) by (auto simp: log)
      then show "(item_shop_id (fst p), item_date (fst p)) \<noteq> (s, ?d)"
        using notpre by auto
    qed
    from fold_apply_put_other[OF this] show ?thesis
      by (simp add: main_cases(2)[OF creds])
  qed
  show ?thesis
    using out log written untouched by (simp add: puts_of_run_main[OF creds])
qed

theorem failed_upsert_aborts_loop_witness:
  "fst (analytics_main (failing_env mixed_rows) example_world) = Raised ClientError \<and>
   map (\<lambda>p. (item_shop_id (fst p), snd p))
     (puts_of_run example_world (snd (analytics_main (failing_env mixed_rows) example_world))) =
   [(''A'', True), (''B'', False)]"
proof -
  let ?e = "failing_env mixed_rows"
  have shops: "unique (dropna (map shop_id (rows_on ?e (run_date ?e example_world)))) =
               [''A''] @ ''B'' # [''C'']"
    using failing_shops by (simp add: failing_run_date shops_on_def)
  have ok: "\<forall>it. item_shop_id it \<in> set [''A''] \<longrightarrow> \<not> put_fails ?e it"
    by (simp add: failing_env_def)
  have bad: "\<forall>it. item_shop_id it = ''B'' \<longrightarrow> put_fails ?e it"
    by (simp add: failing_env_def)
  from failed_upsert_aborts_loop[OF failing_credentials shops ok bad]
  show ?thesis by simp
qed

section \<open>Running the aggregator twice\<close>

lemma attempt_core:
  "p \<in> set (attempts e d df ss k) \<Longrightarrow>
     summary_core (fst p) =
       (item_shop_id (fst p), d, count_unique_customers df (item_shop_id (fst p)))"
  by (auto dest!: attempts_items simp: summary_core_def mk_item_def)

lemma attempts_cores:
  "map (\<lambda>p. summary_core (fst p)) (attempts e d df ss k) =
     take (length (attempts e d df ss k)) (map (\<lambda>s. (s, d, count_unique_customers df s)) ss)"
  by (induction ss arbitrary: k) (simp_all add: mk_item_def summary_core_def)

lemma attempts_stamps:
  "map (\<lambda>p. item_updated_at (fst p)) (attempts e d df ss k) =
     map (clock e) [k..<k + length (attempts e d df ss k)]"
  by (induction ss arbitrary: k) (simp_all add: mk_item_def upt_conv_Cons del: upt_Suc)

lemma example_run_attempts:
  "run_attempts (example_env example_rows) w =
     [(mk_item (example_env example_rows) 20473 (rows_on (example_env example_rows) 20473) ''A''
         (Suc (reads w)), True)]"
  if "run_date (example_env example_rows) w = 20473"
  by (simp add: run_attempts_def that example_shops) (simp add: example_env_def)

lemma example_first_run:
  "reads (snd (analytics_main (example_env example_rows) example_world)) = 2"
  "fst (analytics_main (example_env example_rows) example_world) = Returned"
  "map_option item_updated_at
     (table (snd (analytics_main (example_env example_rows) example_world)) (''A'', 20473)) =
   Some (at_time 20473 13 0 1)"
  "map_option item_unique_customers
     (table (snd (analytics_main (example_env example_rows) example_world)) (''A'', 20473)) =
   Some 2"
proof -
  let ?e = "example_env example_rows"
  have r: "reads example_world = 0"
    by (simp add: example_world_def)
  have t: "terminal_logs ?e = example_rows"
    by (simp add: example_env_def)
  have ne: "example_rows \<noteq> []"
    by (simp add: example_rows_def)
  note A = example_run_attempts[OF example_run_date]
  show "reads (snd (analytics_main ?e example_world)) = 2"
    by (simp add: main_parsed(4)[OF example_credentials example_parses] t ne A r)
  show "fst (analytics_main ?e example_world) = Returned"
    by (simp add: main_parsed(3)[OF example_credentials example_parses] A)
  show "map_option item_updated_at (table (snd (analytics_main ?e example_world)) (''A'', 20473)) =
        Some (at_time 20473 13 0 1)"
    by (simp add: main_parsed(2)[OF example_credentials example_parses] A apply_put_def
        mk_item_def r)
       (simp add: example_env_def)
  show "map_option item_unique_customers
          (table (snd (analytics_main ?e example_world)) (''A'', 20473)) = Some 2"
    by (simp add: main_parsed(2)[OF example_credentials example_parses] A apply_put_def
        mk_item_def count_rows_on[OF example_parses] t example_customers)
qed

lemma example_second_run:
  "fst (analytics_main (example_env example_rows)
          (snd (analytics_main (example_env example_rows) example_world))) = Returned"
  "map_option item_updated_at
     (table (snd (analytics_main (example_env example_rows)
                    (snd (analytics_main (example_env example_rows) example_world))))
        (''A'', 20473)) =
   Some (at_time 20473 13 0 3)"
proof -
  let ?e = "example_env example_rows"
  let ?w1 = "snd (analytics_main ?e example_world)"
  have r: "reads ?w1 = 2"
    by (rule example_first_run(1))
  have d: "run_date ?e ?w1 = 20473"
    by (rule example_run_date_any) (simp add: r)
  note A = example_run_attempts[OF d]
  show "fst (analytics_main ?e ?w1) = Returned"
    by (simp add: main_parsed(3)[OF example_credentials example_parses] A)
  show "map_option item_updated_at (table (snd (analytics_main ?e ?w1)) (''A'', 20473)) =
        Some (at_time 20473 13 0 3)"
    by (simp add: main_parsed(2)[OF example_credentials example_parses] A apply_put_def
        mk_item_def r)
       (simp add: example_env_def)
qed

lemma flaky_credentials: "credentials_set (flaky_env rows)"
  by (simp add: flaky_env_def put_fails_update example_credentials)

lemma flaky_run_date: "run_date (flaky_env rows) w = 20473" if "reads w \<le> 59"
  by (simp add: flaky_env_def put_fails_update example_run_date_any[OF that])

lemma flaky_parses: "parses (flaky_env mixed_rows)"
  by (simp add: flaky_env_def put_fails_update mixed_parses)

lemma flaky_shops: "shops_on (flaky_env mixed_rows) 20473 = [''A'', ''B'', ''C'']"
  by (simp add: flaky_env_def put_fails_update mixed_shops)

lemma flaky_put_fails:
  "put_fails (flaky_env rows) (mk_item (flaky_env rows) d df sid k) \<longleftrightarrow> sid = ''B'' \<and> k = 2"
  by (auto simp: flaky_env_def example_env_def mk_item_def at_time_def)

lemma flaky_first_run:
  "reads (snd (analytics_main (flaky_env mixed_rows) example_world)) = 3"
  "table (snd (analytics_main (flaky_env mixed_rows) example_world)) (''B'', 20473) = None"
proof -
  let ?e = "flaky_env mixed_rows"
  have r: "reads example_world = 0"
    by (simp add: example_world_def)
  have d: "run_date ?e example_world = 20473"
    by (rule flaky_run_date) (simp add: r)
  have ne: "terminal_logs ?e \<noteq> []"
    by (simp add: flaky_env_def example_env_def mixed_rows_def)
  have A: "run_attempts ?e example_world =
           [(mk_item ?e 20473 (rows_on ?e 20473) ''A'' 1, True),
            (mk_item ?e 20473 (rows_on ?e 20473) ''B'' 2, False)]"
    by (simp add: run_attempts_def d flaky_shops flaky_put_fails r eval_nat_numeral)
  show "reads (snd (analytics_main ?e example_world)) = 3"
    by (simp add: main_parsed(4)[OF flaky_credentials flaky_parses] ne A r)
  have "table example_world (''B'', 20473) = None"
    by (simp add: example_world_def)
  then show "table (snd (analytics_main ?e example_world)) (''B'', 20473) = None"
    by (simp add: main_parsed(2)[OF flaky_credentials flaky_parses] A apply_put_def mk_item_def)
qed

lemma flaky_second_run:
  "map_option item_shop_id
     (table (snd (analytics_main (flaky_env mixed_rows)
                    (snd (analytics_main (flaky_env mixed_rows) example_world))))
        (''B'', 20473)) = Some ''B''"
proof -
  let ?e = "flaky_env mixed_rows"
  let ?w1 = "snd (analytics_main ?e example_world)"
  have r: "reads ?w1 = 3"
    by (rule flaky_first_run(1))
  have d: "run_date ?e ?w1 = 20473"
    by (rule flaky_run_date) (simp add: r)
  have A: "run_attempts ?e ?w1 =
           [(mk_item ?e 20473 (rows_on ?e 20473) ''A'' 4, True),
            (mk_item ?e 20473 (rows_on ?e 20473) ''B'' 5, True),
            (mk_item ?e 20473 (rows_on ?e 20473) ''C'' 6, True)]"
    by (simp add: run_attempts_def d flaky_shops flaky_put_fails r eval_nat_numeral)
  show ?thesis
    by (simp add: main_parsed(2)[OF flaky_credentials flaky_parses] A apply_put_def mk_item_def)
qed

text \<open>
  C3, as stated, fails in two ways. Every item carries \<open>updated_at\<close>, the clock reading
  taken when it is saved: on the example rows the first run stores shop A with
  \<open>updated_at\<close> 13:00:01 and the second run, for the same target date, replaces it by an
  item with \<open>updated_at\<close> 13:00:03, so the two records are not equal. And a write may fail
  in one run and succeed in the other: with the store that rejects the write made at
  13:00:02, the first run over the mixed rows ends at shop B and leaves no summary for it,
  and the second run, over the same rows and for the same target date, stores one.
\<close>

theorem rerun_differs_from_first_run:
  "run_date (example_env example_rows)
     (snd (analytics_main (example_env example_rows) example_world)) =
   run_date (example_env example_rows) example_world \<and>
   fst (analytics_main (example_env example_rows) example_world) = Returned \<and>
   fst (analytics_main (example_env example_rows)
          (snd (analytics_main (example_env example_rows) example_world))) = Returned \<and>
   table (snd (analytics_main (example_env example_rows)
                 (snd (analytics_main (example_env example_rows) example_world))))
     (''A'', 20473) \<noteq>
   table (snd (analytics_main (example_env example_rows) example_world)) (''A'', 20473) \<and>
   run_date (flaky_env mixed_rows) (snd (analytics_main (flaky_env mixed_rows) example_world)) =
   run_date (flaky_env mixed_rows) example_world \<and>
   table (snd (analytics_main (flaky_env mixed_rows) example_world)) (''B'', 20473) = None \<and>
   map_option item_shop_id
     (table (snd (analytics_main (flaky_env mixed_rows)
                    (snd (analytics_main (flaky_env mixed_rows) example_world))))
        (''B'', 20473)) = Some ''B''"
proof -
  let ?e = "example_env example_rows"
  let ?w1 = "snd (analytics_main ?e example_world)"
  let ?w2 = "snd (analytics_main ?e ?w1)"
  let ?f = "flaky_env mixed_rows"
  let ?v1 = "snd (analytics_main ?f example_world)"
  have d: "run_date ?e ?w1 = run_date ?e example_world"
    by (simp add: example_run_date example_run_date_any example_first_run(1))
  have "at_time 20473 13 0 3 \<noteq> at_time 20473 13 0 1"
    by (simp add: at_time_def)
  then have "map_option item_updated_at (table ?w2 (''A'', 20473)) \<noteq>
             map_option item_updated_at (table ?w1 (''A'', 20473))"
    by (simp only: example_first_run(3) example_second_run(2)) simp
  then have ne: "table ?w2 (''A'', 20473) \<noteq> table ?w1 (''A'', 20473)"
    by auto
  have "run_date ?f ?v1 = 20473"
    by (rule flaky_run_date) (simp add: flaky_first_run(1))
  moreover have "run_date ?f example_world = 20473"
    by (rule flaky_run_date) (simp add: example_world_def)
  ultimately have fd: "run_date ?f ?v1 = run_date ?f example_world"
    by simp
  show ?thesis
    using d ne fd example_first_run(2) example_second_run(1) flaky_first_run(2) flaky_second_run
    by simp
qed

text \<open>
  C3, amended. When no call of \<open>put_item\<close> fails in the first of two successive runs
  over the same rows and for the same target date, the items the second run passes to
  \<open>put_item\<close> have the \<open>shop_id\<close>, \<open>date\<close> and \<open>unique_customers\<close> of the items of
  the first run, in the same order, as far as the second run gets, which is to the end when
  none of its calls fails; and after it every entry of the table has the \<open>shop_id\<close>,
  \<open>date\<close> and \<open>unique_customers\<close> it had after the first run: a second write replaces
  the first and no count accumulates. The entry of a shop that the second run has written is
  the item the second run wrote, and the \<open>updated_at\<close> of the items of the second run are
  the readings of the clock that follow the one the second run took for the current instant.
\<close>

theorem rerun_overwrites_with_equal_counts:
  assumes ok1: "list_all snd (puts_of_run w (snd (analytics_main e w)))"
    and same: "run_date e (snd (analytics_main e w)) = run_date e w"
  shows "map (\<lambda>p. summary_core (fst p))
           (puts_of_run (snd (analytics_main e w))
              (snd (analytics_main e (snd (analytics_main e w))))) =
         take (length (puts_of_run (snd (analytics_main e w))
                         (snd (analytics_main e (snd (analytics_main e w))))))
           (map (\<lambda>p. summary_core (fst p)) (puts_of_run w (snd (analytics_main e w)))) \<and>
         (list_all snd (puts_of_run (snd (analytics_main e w))
                          (snd (analytics_main e (snd (analytics_main e w))))) \<longrightarrow>
          map (\<lambda>p. summary_core (fst p))
            (puts_of_run (snd (analytics_main e w))
               (snd (analytics_main e (snd (analytics_main e w))))) =
          map (\<lambda>p. summary_core (fst p)) (puts_of_run w (snd (analytics_main e w)))) \<and>
         (\<forall>key. map_option summary_core
                  (table (snd (analytics_main e (snd (analytics_main e w)))) key) =
                map_option summary_core (table (snd (analytics_main e w)) key)) \<and>
         (\<forall>it. (it, True) \<in> set (puts_of_run (snd (analytics_main e w))
                                   (snd (analytics_main e (snd (analytics_main e w))))) \<longrightarrow>
            table (snd (analytics_main e (snd (analytics_main e w))))
              (item_shop_id it, item_date it) = Some it) \<and>
         map (\<lambda>p. item_updated_at (fst p))
           (puts_of_run (snd (analytics_main e w))
              (snd (analytics_main e (snd (analytics_main e w))))) =
         map (clock e)
           [Suc (reads (snd (analytics_main e w)))..<
            Suc (reads (snd (analytics_main e w))) +
              length (puts_of_run (snd (analytics_main e w))
                        (snd (analytics_main e (snd (analytics_main e w)))))]"
proof (cases "credentials_set e")
  case False
  then show ?thesis
    by (simp add: main_without_credentials puts_of_run_def)
next
  case creds: True
  let ?w1 = "snd (analytics_main e w)"
  let ?w2 = "snd (analytics_main e ?w1)"
  let ?d = "run_date e w"
  let ?df = "rows_on e ?d"
  let ?ss = "shops_on e ?d"
  let ?A1 = "run_attempts e w"
  let ?A2 = "run_attempts e ?w1"
  have A1: "?A1 = attempts e ?d ?df ?ss (Suc (reads w))"
    by (simp add: run_attempts_def)
  have A2: "?A2 = attempts e ?d ?df ?ss (Suc (reads ?w1))"
    by (simp add: run_attempts_def same)
  have all1: "list_all snd ?A1"
    using ok1 by (simp add: puts_of_run_main[OF creds])
  note R1 = attempts_returned[OF all1[unfolded A1]]
  have cores1: "map (\<lambda>p. summary_core (fst p)) ?A1 =
                map (\<lambda>s. (s, ?d, count_unique_customers ?df s)) ?ss"
    unfolding A1 using R1 by simp
  have flags1: "map (\<lambda>p. (item_shop_id (fst p), snd p)) ?A1 = map (\<lambda>s. (s, True)) ?ss"
    unfolding A1 using R1 by simp
  have cores: "map (\<lambda>p. summary_core (fst p)) ?A2 =
               take (length ?A2) (map (\<lambda>p. summary_core (fst p)) ?A1)"
    unfolding cores1 unfolding A2 by (rule attempts_cores)
  have whole: "map (\<lambda>p. summary_core (fst p)) ?A2 = map (\<lambda>p. summary_core (fst p)) ?A1"
    if all2: "list_all snd ?A2"
  proof -
    note R2 = attempts_returned[OF all2[unfolded A2]]
    show ?thesis
      unfolding cores1 unfolding A2 using R2 by simp
  qed
  have stamps: "map (\<lambda>p. item_updated_at (fst p)) ?A2 =
                map (clock e) [Suc (reads ?w1)..<Suc (reads ?w1) + length ?A2]"
    unfolding A2 by (rule attempts_stamps)
  have t1: "table ?w1 = fold apply_put ?A1 (table w)"
    by (rule main_cases(2)[OF creds])
  have t2: "table ?w2 = fold apply_put ?A2 (table ?w1)"
    by (rule main_cases(2)[OF creds])
  have stored: "table ?w2 (item_shop_id it, item_date it) = Some it"
    if mem: "(it, True) \<in> set ?A2" for it
  proof -
    have "item_date it = run_date e ?w1"
      using run_attempts_items[OF mem] by simp
    with run_written[OF mem, of "table ?w1"] show ?thesis
      by (simp add: t2)
  qed
  have keys: "map_option summary_core (table ?w2 key) = map_option summary_core (table ?w1 key)"
    for key
  proof (cases "\<exists>p\<in>set ?A2. snd p \<and> (item_shop_id (fst p), item_date (fst p)) = key")
    case True
    then obtain it2 where it2: "(it2, True) \<in> set ?A2"
      "(item_shop_id it2, item_date it2) = key"
      by (metis prod.collapse)
    have d2: "item_date it2 = ?d"
      using run_attempts_items[OF it2(1)] by (simp add: same)
    have k2: "table ?w2 key = Some it2"
      using stored[OF it2(1)] it2(2) by simp
    obtain s i where s: "s \<in> set ?ss" "it2 = mk_item e ?d ?df s i"
      using attempts_items[OF it2(1)[unfolded A2]] by auto
    then have "(item_shop_id it2, True) \<in> set (map (\<lambda>s. (s, True)) ?ss)"
      by (simp add: mk_item_def image_iff)
    then have "(item_shop_id it2, True) \<in> set (map (\<lambda>p. (item_shop_id (fst p), snd p)) ?A1)"
      by (simp only: flags1)
    then obtain it1 where it1: "(it1, True) \<in> set ?A1" "item_shop_id it1 = item_shop_id it2"
      by auto
    have k1: "table ?w1 key = Some it1"
      using run_written[OF it1(1), of "table w"] it1(2) it2(2) d2 by (auto simp: t1)
    have "summary_core it1 = summary_core it2"
      using attempt_core[OF it1(1)[unfolded A1]] attempt_core[OF it2(1)[unfolded A2]] it1(2)
      by simp
    then show ?thesis
      by (simp add: k1 k2)
  next
    case False
    then have "\<forall>p\<in>set ?A2. snd p \<longrightarrow> (item_shop_id (fst p), item_date (fst p)) \<noteq> key"
      by blast
    from fold_apply_put_other[OF this, of "table ?w1"] show ?thesis
      by (simp add: t2)
  qed
  show ?thesis
    using cores whole keys stored stamps by (simp add: puts_of_run_main[OF creds])
qed

theorem rerun_overwrites_with_equal_counts_witness:
  "map (\<lambda>p. summary_core (fst p))
     (puts_of_run (snd (analytics_main (example_env example_rows) example_world))
        (snd (analytics_main (example_env example_rows)
               (snd (analytics_main (example_env example_rows) example_world))))) =
   map (\<lambda>p. summary_core (fst p))
     (puts_of_run example_world (snd (analytics_main (example_env example_rows) example_world))) \<and>
   map_option summary_core
     (table (snd (analytics_main (example_env example_rows)
                    (snd (analytics_main (example_env example_rows) example_world))))
        (''A'', 20473)) =
   map_option summary_core
     (table (snd (analytics_main (example_env example_rows) example_world)) (''A'', 20473)) \<and>
   map (\<lambda>p. item_updated_at (fst p))
     (puts_of_run (snd (analytics_main (example_env example_rows) example_world))
        (snd (analytics_main (example_env example_rows)
               (snd (analytics_main (example_env example_rows) example_world))))) =
   [at_time 20473 13 0 3]"
proof -
  let ?e = "example_env example_rows"
  let ?w1 = "snd (analytics_main ?e example_world)"
  let ?w2 = "snd (analytics_main ?e ?w1)"
  have r: "reads ?w1 = 2"
    by (rule example_first_run(1))
  have d1: "run_date ?e ?w1 = 20473"
    by (rule example_run_date_any) (simp add: r)
  have same: "run_date ?e ?w1 = run_date ?e example_world"
    by (simp add: example_run_date d1)
  have p1: "puts_of_run example_world ?w1 = run_attempts ?e example_world"
    by (rule puts_of_run_main[OF example_credentials])
  have p2: "puts_of_run ?w1 ?w2 = run_attempts ?e ?w1"
    by (rule puts_of_run_main[OF example_credentials])
  have ok1: "list_all snd (puts_of_run example_world ?w1)"
    by (simp add: p1 example_run_attempts[OF example_run_date])
  have ok2: "list_all snd (puts_of_run ?w1 ?w2)"
    by (simp add: p2 example_run_attempts[OF d1])
  have len: "length (puts_of_run ?w1 ?w2) = 1"
    by (simp add: p2 example_run_attempts[OF d1])
  have c: "clock ?e 3 = at_time 20473 13 0 3"
    by (simp add: example_env_def)
  note rerun = rerun_overwrites_with_equal_counts[OF ok1 same]
  have cores: "map (\<lambda>p. summary_core (fst p)) (puts_of_run ?w1 ?w2) =
               map (\<lambda>p. summary_core (fst p)) (puts_of_run example_world ?w1)"
    using rerun ok2 by blast
  have entry: "map_option summary_core (table ?w2 (''A'', 20473)) =
               map_option summary_core (table ?w1 (''A'', 20473))"
    using rerun by blast
  have "map (\<lambda>p. item_updated_at (fst p)) (puts_of_run ?w1 ?w2) =
        map (clock ?e) [Suc (reads ?w1)..<Suc (reads ?w1) + length (puts_of_run ?w1 ?w2)]"
    using rerun by blast
  then have stamps: "map (\<lambda>p. item_updated_at (fst p)) (puts_of_run ?w1 ?w2) =
                     [at_time 20473 13 0 3]"
    by (simp add: len r c)
  show ?thesis
    using cores entry stamps by blast
qed

section \<open>Rows with a null field\<close>

lemma attempts_cong:
  assumes "clock e1 = clock e2" and "put_fails e1 = put_fails e2"
    and "\<forall>s\<in>set ss. count_unique_customers df1 s = count_unique_customers df2 s"
  shows "attempts e1 d df1 ss k = attempts e2 d df2 ss k"
  using assms(3)
proof (induction ss arbitrary: k)
  case Nil
  show ?case by simp
next
  case (Cons sid rest)
  have "mk_item e1 d df1 sid k = mk_item e2 d df2 sid k"
    using Cons.prems assms(1) by (simp add: mk_item_def)
  moreover have "attempts e1 d df1 rest (Suc k) = attempts e2 d df2 rest (Suc k)"
    using Cons.prems by (intro Cons.IH) simp
  ultimately show ?case
    by (simp add: assms(2))
qed

lemma credentials_set_terminal_logs:
  "credentials_set (e\<lparr>terminal_logs := rows\<rparr>) = credentials_set e"
  by (simp add: credentials_set_def get_supabase_client_def)

lemma count_without_null_phone:
  "phone_number r = None \<Longrightarrow>
     count_unique_customers (xs @ r # ys) sid = count_unique_customers (xs @ ys) sid"
  by (simp add: count_unique_customers_def Let_def dropna_append)

lemma run_attempts_without_null_shop:
  assumes r: "shop_id r = None"
    and par: "parses (e\<lparr>terminal_logs := xs @ r # ys\<rparr>)"
  shows "parses (e\<lparr>terminal_logs := xs @ ys\<rparr>)"
    and "run_attempts (e\<lparr>terminal_logs := xs @ r # ys\<rparr>) w =
         run_attempts (e\<lparr>terminal_logs := xs @ ys\<rparr>) w"
proof -
  let ?e1 = "e\<lparr>terminal_logs := xs @ r # ys\<rparr>"
  let ?e2 = "e\<lparr>terminal_logs := xs @ ys\<rparr>"
  show par2: "parses ?e2"
    using par unfolding parses_iff by auto
  have d: "run_date ?e1 w = run_date ?e2 w"
    by (simp add: run_date_def)
  have shops: "shops_on ?e1 d = shops_on ?e2 d" for d
    using r by (simp add: shops_on_parses[OF par] shops_on_parses[OF par2] dropna_append)
  have "customers (xs @ r # ys) s d = customers (xs @ ys) s d" for s d
    using r by (auto simp: customers_def)
  then have counts: "count_unique_customers (rows_on ?e1 d) s =
                     count_unique_customers (rows_on ?e2 d) s" for d s
    by (simp add: count_rows_on[OF par] count_rows_on[OF par2])
  show "run_attempts ?e1 w = run_attempts ?e2 w"
    unfolding run_attempts_def d shops
    by (rule attempts_cong) (simp_all add: counts)
qed

text \<open>
  C4, as stated, fails for a row with no shop: its \<open>created_at\<close> is parsed with the rest
  of the column before any row is dropped. Without the row written with microseconds the
  run over the example rows returns and stores 2 for shop A; with it, placed after the
  first row, \<open>pd.to_datetime\<close> raises \<open>ValueError\<close> and nothing is stored.
\<close>

theorem null_shop_row_can_abort_the_run:
  "shop_id fractional_row = None \<and>
   fst (analytics_main (example_env (hd example_rows # tl example_rows)) example_world) =
     Returned \<and>
   map_option item_unique_customers
     (table (snd (analytics_main (example_env (hd example_rows # tl example_rows)) example_world))
        (''A'', 20473)) = Some 2 \<and>
   fst (analytics_main (example_env (hd example_rows # fractional_row # tl example_rows))
          example_world) = Raised ValueError \<and>
   table (snd (analytics_main (example_env (hd example_rows # fractional_row # tl example_rows))
                 example_world)) (''A'', 20473) = None"
proof -
  have rows: "hd example_rows # tl example_rows = example_rows"
    by (simp add: example_rows_def)
  have "\<not> parses (example_env (hd example_rows # fractional_row # tl example_rows))"
    by (simp add: parses_def to_datetime_def example_env_def example_rows_def fractional_row_def
        iso_seconds_def iso_microseconds_def)
  from main_unparsed[OF example_credentials this, of example_world]
  show ?thesis
    using example_first_run(2,4)
    by (simp add: rows) (simp add: example_world_def fractional_row_def)
qed

text \<open>
  C4, amended. A row whose \<open>phone_number\<close> is null adds nothing to the count of any shop:
  the count computed with the row is the count computed without it, and every item a run
  passes to \<open>put_item\<close> carries the number of distinct phone numbers of its shop on the
  target date among the fetched rows other than that row. A row whose \<open>shop_id\<close> is
  null, when the column \<open>created_at\<close> parses with it, is in no shop's partition: the run
  with the row ends as the run without it does, with the same calls of \<open>put_item\<close> and
  the same table.
\<close>

theorem null_phone_and_null_shop_rows:
  "(phone_number (row :: instant log_record) = None \<longrightarrow>
      (\<forall>sid. count_unique_customers (df1 @ row # df2) sid =
             count_unique_customers (df1 @ df2) sid)) \<and>
   (phone_number r = None \<longrightarrow>
      (\<forall>p\<in>set (puts_of_run w (snd (analytics_main (e\<lparr>terminal_logs := xs @ r # ys\<rparr>) w))).
         item_unique_customers (fst p) =
           int (card (customers (xs @ ys) (item_shop_id (fst p)) (run_date e w))))) \<and>
   (shop_id r = None \<and> parses (e\<lparr>terminal_logs := xs @ r # ys\<rparr>) \<longrightarrow>
      fst (analytics_main (e\<lparr>terminal_logs := xs @ r # ys\<rparr>) w) =
        fst (analytics_main (e\<lparr>terminal_logs := xs @ ys\<rparr>) w) \<and>
      table (snd (analytics_main (e\<lparr>terminal_logs := xs @ r # ys\<rparr>) w)) =
        table (snd (analytics_main (e\<lparr>terminal_logs := xs @ ys\<rparr>) w)) \<and>
      put_log (snd (analytics_main (e\<lparr>terminal_logs := xs @ r # ys\<rparr>) w)) =
        put_log (snd (analytics_main (e\<lparr>terminal_logs := xs @ ys\<rparr>) w)))"
proof -
  let ?e1 = "e\<lparr>terminal_logs := xs @ r # ys\<rparr>"
  let ?e2 = "e\<lparr>terminal_logs := xs @ ys\<rparr>"
  have phone: "count_unique_customers (df1 @ row # df2) sid =
               count_unique_customers (df1 @ df2) sid"
    if "phone_number row = None" for sid
    using that by (rule count_without_null_phone)
  have written: "item_unique_customers (fst p) =
           int (card (customers (xs @ ys) (item_shop_id (fst p)) (run_date e w)))"
    if r: "phone_number r = None" and p: "p \<in> set (puts_of_run w (snd (analytics_main ?e1 w)))"
    for p
  proof -
    from p have "p \<in> set (run_attempts ?e1 w)"
      by (auto simp: puts_of_run_any split: if_splits)
    from run_attempts_items[OF this]
    have "item_unique_customers (fst p) =
          int (card (customers (xs @ r # ys) (item_shop_id (fst p)) (run_date e w)))"
      by (simp add: run_date_def)
    moreover have "customers (xs @ r # ys) s d = customers (xs @ ys) s d" for s d
      using r by (auto simp: customers_def)
    ultimately show ?thesis
      by simp
  qed
  have shop: "fst (analytics_main ?e1 w) = fst (analytics_main ?e2 w) \<and>
      table (snd (analytics_main ?e1 w)) = table (snd (analytics_main ?e2 w)) \<and>
      put_log (snd (analytics_main ?e1 w)) = put_log (snd (analytics_main ?e2 w))"
    if h: "shop_id r = None \<and> parses ?e1"
  proof (cases "credentials_set e")
    case True
    then have c1: "credentials_set ?e1" and c2: "credentials_set ?e2"
      by (simp_all add: credentials_set_terminal_logs)
    from h have r: "shop_id r = None" and p1: "parses ?e1"
      by simp_all
    note p2 = run_attempts_without_null_shop(1)[OF r p1]
    note A = run_attempts_without_null_shop(2)[OF r p1, of w]
    show ?thesis
      by (simp add: main_parsed(1,2,3)[OF c1 p1] main_parsed(1,2,3)[OF c2 p2] A)
  next
    case False
    then have c1: "\<not> credentials_set ?e1" and c2: "\<not> credentials_set ?e2"
      by (simp_all add: credentials_set_terminal_logs)
    show ?thesis
      by (simp add: main_without_credentials[OF c1] main_without_credentials[OF c2])
  qed
  show ?thesis
    using phone written shop by blast
qed

theorem null_phone_and_null_shop_rows_witness:
  "count_unique_customers (map parsed (take 4 mixed_rows) @ parsed (mixed_rows ! 4) # []) ''C'' =
     count_unique_customers (map parsed (take 4 mixed_rows) @ []) ''C'' \<and>
   count_unique_customers (map parsed mixed_rows) ''C'' = 0 \<and>
   phone_number (mixed_rows ! 4) = None \<and>
   map (\<lambda>p. (item_shop_id (fst p), item_unique_customers (fst p)))
     (puts_of_run example_world
        (snd (analytics_main
           ((example_env [])\<lparr>terminal_logs := take 4 mixed_rows @ mixed_rows ! 4 # []\<rparr>)
           example_world))) =
     [(''A'', 2), (''B'', 1), (''C'', 0)] \<and>
   shop_id (mixed_rows ! 1) = None \<and>
   put_log (snd (analytics_main
      ((example_env [])\<lparr>terminal_logs := take 1 mixed_rows @ mixed_rows ! 1 # drop 2 mixed_rows\<rparr>)
      example_world)) =
   put_log (snd (analytics_main
      ((example_env [])\<lparr>terminal_logs := take 1 mixed_rows @ drop 2 mixed_rows\<rparr>)
      example_world))"
proof -
  let ?e = "(example_env [])\<lparr>terminal_logs := take 4 mixed_rows @ mixed_rows ! 4 # []\<rparr>"
  let ?puts = "puts_of_run example_world (snd (analytics_main ?e example_world))"
  have p: "phone_number (parsed (mixed_rows ! 4)) = None"
    by (simp add: mixed_rows_def parsed_fields)
  have p': "phone_number (mixed_rows ! 4) = None"
    by (simp add: mixed_rows_def)
  have s: "shop_id (mixed_rows ! 1) = None"
    by (simp add: mixed_rows_def)
  have m: "map parsed (take 4 mixed_rows) @ parsed (mixed_rows ! 4) # [] = map parsed mixed_rows"
    by (simp add: mixed_rows_def)
  have z: "count_unique_customers (map parsed (take 4 mixed_rows) @ []) ''C'' = 0"
    by (simp add: mixed_rows_def count_unique_customers_def nunique_def astype_str_def
        parsed_fields)
  have par: "parses ((example_env [])\<lparr>terminal_logs :=
               take 1 mixed_rows @ mixed_rows ! 1 # drop 2 mixed_rows\<rparr>)"
    by (simp add: parses_def to_datetime_def mixed_rows_def)
  have env: "?e = example_env mixed_rows"
    by (simp add: example_env_def mixed_rows_def)
  have creds: "credentials_set ?e"
    by (simp add: env example_credentials)
  have ok: "\<forall>it. \<not> put_fails ?e it"
    by (simp add: example_env_def)
  have d: "run_date (example_env []) example_world = 20473"
    by (rule example_run_date)
  have shops: "map (\<lambda>p. (item_shop_id (fst p), snd p)) ?puts =
               [(''A'', True), (''B'', True), (''C'', True)]"
    unfolding puts_of_run_main[OF creds] run_attempts_all_ok[OF ok]
    by (simp add: env example_run_date mixed_shops)
  then obtain pa pb pc where puts: "?puts = [pa, pb, pc]" "item_shop_id (fst pa) = ''A''"
      "item_shop_id (fst pb) = ''B''" "item_shop_id (fst pc) = ''C''"
    by (auto simp: map_eq_Cons_conv)
  have cust: "customers (take 4 mixed_rows) ''A'' 20473 = {''+6581234567'', ''+6587654321''}"
    "customers (take 4 mixed_rows) ''B'' 20473 = {''+6581111111''}"
    "customers (take 4 mixed_rows) ''C'' 20473 = {}"
    by (auto simp: customers_def mixed_rows_def utc_date_def date_of_at_time)
  note inst = null_phone_and_null_shop_rows[where row = "parsed (mixed_rows ! 4)"
      and ?df1.0 = "map parsed (take 4 mixed_rows)" and ?df2.0 = "[]"
      and r = "mixed_rows ! 4" and xs = "take 4 mixed_rows"
      and ys = "[]" and e = "example_env []" and w = example_world]
  note inst' = null_phone_and_null_shop_rows[where row = "parsed (mixed_rows ! 4)"
      and ?df1.0 = "map parsed (take 4 mixed_rows)" and ?df2.0 = "[]"
      and r = "mixed_rows ! 1" and xs = "take 1 mixed_rows"
      and ys = "drop 2 mixed_rows" and e = "example_env []" and w = example_world]
  have a: "\<forall>sid. count_unique_customers
                  (map parsed (take 4 mixed_rows) @ parsed (mixed_rows ! 4) # []) sid =
                count_unique_customers (map parsed (take 4 mixed_rows) @ []) sid"
    using inst p by blast
  have "\<forall>p\<in>set ?puts. item_unique_customers (fst p) =
          int (card (customers (take 4 mixed_rows @ []) (item_shop_id (fst p))
                       (run_date (example_env []) example_world)))"
    using inst p' by blast
  then have counts: "map (\<lambda>p. (item_shop_id (fst p), item_unique_customers (fst p))) ?puts =
                     [(''A'', 2), (''B'', 1), (''C'', 0)]"
    unfolding puts(1) d using puts(2-4) by (simp add: cust)
  have b: "put_log (snd (analytics_main
      ((example_env [])\<lparr>terminal_logs := take 1 mixed_rows @ mixed_rows ! 1 # drop 2 mixed_rows\<rparr>)
      example_world)) =
   put_log (snd (analytics_main
      ((example_env [])\<lparr>terminal_logs := take 1 mixed_rows @ drop 2 mixed_rows\<rparr>)
      example_world))"
    using inst' s par by blast
  have c: "count_unique_customers (map parsed mixed_rows) ''C'' = 0"
    using a z unfolding m by simp
  from a b c s p' counts show ?thesis
    by blast
qed

section \<open>Runs that write nothing, and counts of zero\<close>

text \<open>
  C6, as stated, fails: the column \<open>created_at\<close> is parsed before the rows of the target
  date are selected. Of two rows of the day before the target date, the second written
  with microseconds, none falls on the target date, and the run raises \<open>ValueError\<close>.
\<close>

theorem rows_of_another_day_can_raise:
  "map (\<lambda>r. utc_date (created_at r)) stale_rows = [Some 20472, Some 20472] \<and>
   run_date (example_env stale_rows) example_world = 20473 \<and>
   analytics_main (example_env stale_rows) example_world = (Raised ValueError, example_world)"
proof -
  have "\<not> parses (example_env stale_rows)"
    by (simp add: parses_def to_datetime_def example_env_def stale_rows_def
        iso_seconds_def iso_microseconds_def)
  from main_unparsed[OF example_credentials this, of example_world]
  show ?thesis
    by (simp add: example_run_date)
       (simp add: stale_rows_def utc_date_def date_of_def at_time_def usec_per_day_def
          usec_per_hour_def)
qed

text \<open>
  C6, amended. When the fetch returns no rows, or returns rows whose column \<open>created_at\<close>
  parses and none of which falls on the target date, the run returns normally, calls
  \<open>put_item\<close> not at all, leaves the table as it was, and its last printed line is the
  message that there is no data (none returned, or none for the target date).
\<close>

theorem no_rows_is_normal_termination:
  assumes "credentials_set e"
    and "terminal_logs e = [] \<or>
         (parses e \<and>
          (\<forall>r\<in>set (terminal_logs e). utc_date (created_at r) \<noteq> Some (run_date e w)))"
  shows "fst (analytics_main e w) = Returned \<and>
         puts_of_run w (snd (analytics_main e w)) = [] \<and>
         table (snd (analytics_main e w)) = table w \<and>
         (\<exists>ms. stdout (snd (analytics_main e w)) =
            stdout w @ ms @
              [if terminal_logs e = [] then NoDataReturned else NoDataForTarget (run_date e w)])"
proof -
  obtain c where c: "get_supabase_client e = Inr c"
    using assms(1) by (auto simp: credentials_set_def split: sum.splits)
  show ?thesis
  proof (cases "terminal_logs e = []")
    case True
    then have "analytics_main e w = (Returned, print NoDataReturned w)"
      by (simp add: analytics_main_def fetch_table_df_def fetch_table_rows_def c)
    then show ?thesis
      using True by (simp add: print_def puts_of_run_def)
  next
    case False
    with assms(2) have par: "parses e"
      and off: "\<forall>r\<in>set (terminal_logs e). utc_date (created_at r) \<noteq> Some (run_date e w)"
      by simp_all
    obtain ts where ts: "to_datetime (map created_at (terminal_logs e)) = Inr ts"
      using par by (auto simp: parses_def split: sum.splits)
    have df: "assign_created_at (terminal_logs e) ts = parsed_rows e"
      by (simp add: parsed_rows_def ts)
    have "rows_on e (run_date e w) = []"
      using off by (simp add: rows_on_parses[OF par] filter_empty_conv)
    then have none: "filter (\<lambda>r. date_of (created_at r) = target_date (clock e (reads w)))
                       (parsed_rows e) = []"
      by (simp add: rows_on_def run_date_def)
    have "analytics_main e w =
            (Returned,
             print (NoDataForTarget (run_date e w))
               (print (if hour_of (clock e (reads w)) = 0
                       then ComputingYesterday (run_date e w) (hour_of (clock e (reads w)))
                       else ComputingToday (run_date e w) (hour_of (clock e (reads w))))
                  (w\<lparr>reads := Suc (reads w)\<rparr>)))"
      using False none
      by (simp add: analytics_main_def fetch_table_df_def fetch_table_rows_def c ts df now_def
          Let_def run_date_def)
    then show ?thesis
      using False by (simp add: print_def puts_of_run_def)
  qed
qed

theorem no_rows_is_normal_termination_witness:
  "fst (analytics_main (example_env []) example_world) = Returned \<and>
   puts_of_run example_world (snd (analytics_main (example_env []) example_world)) = [] \<and>
   fst (analytics_main (example_env (drop 3 example_rows)) example_world) = Returned \<and>
   puts_of_run example_world
     (snd (analytics_main (example_env (drop 3 example_rows)) example_world)) = [] \<and>
   stdout (snd (analytics_main (example_env (drop 3 example_rows)) example_world)) =
     [ComputingToday 20473 13, NoDataForTarget 20473]"
proof -
  let ?e = "example_env (drop 3 example_rows)"
  have a: "terminal_logs (example_env []) = [] \<or>
         (parses (example_env []) \<and>
          (\<forall>r\<in>set (terminal_logs (example_env [])).
             utc_date (created_at r) \<noteq> Some (run_date (example_env []) example_world)))"
    by (simp add: example_env_def)
  have par: "parses ?e"
    by (simp add: parses_def to_datetime_def example_env_def example_rows_def)
  have off: "\<forall>r\<in>set (terminal_logs ?e).
            utc_date (created_at r) \<noteq> Some (run_date ?e example_world)"
    by (simp add: example_run_date)
       (simp add: example_env_def example_rows_def utc_date_def date_of_at_time)
  have b: "terminal_logs ?e = [] \<or>
         (parses ?e \<and>
          (\<forall>r\<in>set (terminal_logs ?e).
             utc_date (created_at r) \<noteq> Some (run_date ?e example_world)))"
    using par off by simp
  have ne: "terminal_logs ?e \<noteq> []"
    by (simp add: example_env_def example_rows_def)
  obtain c where c: "get_supabase_client ?e = Inr c"
    using example_credentials[of "drop 3 example_rows"]
    by (auto simp: credentials_set_def split: sum.splits)
  have h: "hour_of (clock ?e (reads example_world)) = 13"
    by (simp add: example_env_def example_world_def hour_of_at_time)
  have out: "\<exists>ms. stdout (snd (analytics_main ?e example_world)) =
               stdout example_world @ ms @ [NoDataForTarget 20473]"
    using no_rows_is_normal_termination[OF example_credentials b] ne
    by (simp add: example_run_date)
  have len: "stdout (snd (analytics_main ?e example_world)) =
             [ComputingToday 20473 13, NoDataForTarget 20473]"
  proof -
    obtain ts where ts: "to_datetime (map created_at (terminal_logs ?e)) = Inr ts"
      using par by (auto simp: parses_def split: sum.splits)
    have df: "assign_created_at (terminal_logs ?e) ts = parsed_rows ?e"
      by (simp add: parsed_rows_def ts)
    have "rows_on ?e 20473 = []"
      using off by (simp add: rows_on_parses[OF par] filter_empty_conv example_run_date)
    then have none: "filter (\<lambda>r. date_of (created_at r) = 20473) (parsed_rows ?e) = []"
      by (simp add: rows_on_def)
    have d: "target_date (clock ?e (reads example_world)) = 20473"
      using example_run_date[of "drop 3 example_rows"] by (simp add: run_date_def)
    show ?thesis
      using ne none
      by (simp add: analytics_main_def fetch_table_df_def fetch_table_rows_def c ts df now_def
          Let_def d h print_def)
         (simp add: example_world_def)
  qed
  from no_rows_is_normal_termination[OF example_credentials a]
    no_rows_is_normal_termination[OF example_credentials b] len
  show ?thesis by blast
qed

text \<open>
  C9, as stated, fails: a shop is written only if the run gets to it. In the mixed rows the
  only row of shop C is on the target date and has no phone number. With the store that
  rejects the writes for shop B, which comes before C, the run ends at B and C has no
  summary; with one more row, written with microseconds, the parse raises \<open>ValueError\<close>
  and no shop has a summary; and without the address of the log table the fetch raises
  \<open>RuntimeError\<close> and no shop has a summary.
\<close>

theorem null_phone_shop_without_summary:
  "map (\<lambda>r. (utc_date (created_at r), phone_number r))
     (filter (\<lambda>r. shop_id r = Some ''C'') mixed_rows) = [(Some 20473, None)] \<and>
   run_date (failing_env mixed_rows) example_world = 20473 \<and>
   fst (analytics_main (failing_env mixed_rows) example_world) = Raised ClientError \<and>
   table (snd (analytics_main (failing_env mixed_rows) example_world)) (''C'', 20473) = None \<and>
   run_date (example_env (mixed_rows @ [fractional_row])) example_world = 20473 \<and>
   fst (analytics_main (example_env (mixed_rows @ [fractional_row])) example_world) =
     Raised ValueError \<and>
   table (snd (analytics_main (example_env (mixed_rows @ [fractional_row])) example_world))
     (''C'', 20473) = None \<and>
   fst (analytics_main ((example_env mixed_rows)\<lparr>SUPABASE_URL := None\<rparr>) example_world) =
     Raised RuntimeError \<and>
   table (snd (analytics_main ((example_env mixed_rows)\<lparr>SUPABASE_URL := None\<rparr>) example_world))
     (''C'', 20473) = None"
proof -
  let ?e = "failing_env mixed_rows"
  let ?w = "snd (analytics_main ?e example_world)"
  have rows: "map (\<lambda>r. (utc_date (created_at r), phone_number r))
     (filter (\<lambda>r. shop_id r = Some ''C'') mixed_rows) = [(Some 20473, None)]"
    by (simp add: mixed_rows_def utc_date_def date_of_at_time)
  have "map snd (map (\<lambda>p. (item_shop_id (fst p), snd p)) (run_attempts ?e example_world)) =
        [True, False]"
    by (simp only: failing_run_attempts) simp
  then have "\<not> list_all snd (run_attempts ?e example_world)"
    by (auto simp: map_eq_Cons_conv)
  then have out: "fst (analytics_main ?e example_world) = Raised ClientError"
    by (simp add: main_parsed(3)[OF failing_credentials failing_parses])
  have "\<forall>p\<in>set (run_attempts ?e example_world). snd p \<longrightarrow>
          (item_shop_id (fst p), item_date (fst p)) \<noteq> (''C'', 20473)"
  proof (intro ballI impI)
    fix p assume p: "p \<in> set (run_attempts ?e example_world)" "snd p"
    then have "(item_shop_id (fst p), snd p) \<in>
               set (map (\<lambda>p. (item_shop_id (fst p), snd p)) (run_attempts ?e example_world))"
      by (simp add: image_iff) blast
    then have "item_shop_id (fst p) = ''A''"
      using p(2) by (auto simp: failing_run_attempts)
    then show "(item_shop_id (fst p), item_date (fst p)) \<noteq> (''C'', 20473)"
      by auto
  qed
  from fold_apply_put_other[OF this, of "table example_world"]
  have none: "table ?w (''C'', 20473) = None"
    by (simp add: main_cases(2)[OF failing_credentials] example_world_def)
  have "\<not> parses (example_env (mixed_rows @ [fractional_row]))"
    by (simp add: parses_def to_datetime_def example_env_def mixed_rows_def fractional_row_def
        iso_seconds_def iso_microseconds_def)
  from main_unparsed[OF example_credentials this, of example_world]
  have raised: "analytics_main (example_env (mixed_rows @ [fractional_row])) example_world =
                (Raised ValueError, example_world)" .
  have "\<not> credentials_set ((example_env mixed_rows)\<lparr>SUPABASE_URL := None\<rparr>)"
    by (simp add: credentials_set_def get_supabase_client_def truthy_def)
  from main_without_credentials[OF this, of example_world]
  have unfetched: "analytics_main ((example_env mixed_rows)\<lparr>SUPABASE_URL := None\<rparr>)
                     example_world = (Raised RuntimeError, example_world)" .
  show ?thesis
    using rows out none
    by (simp add: raised unfetched failing_run_date example_run_date)
       (simp add: example_world_def)
qed

text \<open>
  C9, amended. Every item the run passes to \<open>put_item\<close> has a non-negative
  \<open>unique_customers\<close>. A shop that has a row on the target date and whose rows of that date
  all have a null \<open>phone_number\<close> is written, with \<open>unique_customers = 0\<close>, when the run
  gets to it: the credentials are set, the column \<open>created_at\<close> parses, and the writes for
  the shops before it in the iteration order and for the shop itself do not fail.
\<close>

theorem null_phones_give_zero_count:
  "(\<forall>p\<in>set (puts_of_run w (snd (analytics_main e w))). 0 \<le> item_unique_customers (fst p)) \<and>
   (credentials_set e \<and> parses e \<and>
    (\<exists>r\<in>set (terminal_logs e). shop_id r = Some sid \<and>
         utc_date (created_at r) = Some (run_date e w)) \<and>
    (\<forall>r\<in>set (terminal_logs e). shop_id r = Some sid \<and>
         utc_date (created_at r) = Some (run_date e w) \<longrightarrow> phone_number r = None) \<and>
    unique (dropna (map shop_id (rows_on e (run_date e w)))) = pre @ sid # post \<and>
    (\<forall>it. item_shop_id it \<in> set (pre @ [sid]) \<longrightarrow> \<not> put_fails e it) \<longrightarrow>
    (\<exists>it. table (snd (analytics_main e w)) (sid, run_date e w) = Some it \<and>
          (it, True) \<in> set (puts_of_run w (snd (analytics_main e w))) \<and>
          item_shop_id it = sid \<and> item_date it = run_date e w \<and>
          item_unique_customers it = 0))"
proof -
  have nonneg: "0 \<le> item_unique_customers (fst p)"
    if "p \<in> set (puts_of_run w (snd (analytics_main e w)))" for p
  proof -
    from that have "p \<in> set (run_attempts e w)"
      by (auto simp: puts_of_run_any split: if_splits)
    from run_attempts_items[OF this] show ?thesis
      by simp
  qed
  have zero: "\<exists>it. table (snd (analytics_main e w)) (sid, run_date e w) = Some it \<and>
          (it, True) \<in> set (puts_of_run w (snd (analytics_main e w))) \<and>
          item_shop_id it = sid \<and> item_date it = run_date e w \<and>
          item_unique_customers it = 0"
    if a: "credentials_set e \<and> parses e \<and>
      (\<exists>r\<in>set (terminal_logs e). shop_id r = Some sid \<and>
           utc_date (created_at r) = Some (run_date e w)) \<and>
      (\<forall>r\<in>set (terminal_logs e). shop_id r = Some sid \<and>
           utc_date (created_at r) = Some (run_date e w) \<longrightarrow> phone_number r = None) \<and>
      unique (dropna (map shop_id (rows_on e (run_date e w)))) = pre @ sid # post \<and>
      (\<forall>it. item_shop_id it \<in> set (pre @ [sid]) \<longrightarrow> \<not> put_fails e it)"
  proof -
    let ?d = "run_date e w"
    from a have creds: "credentials_set e"
      and sh: "shops_on e ?d = (pre @ [sid]) @ post"
      and ok: "\<forall>it. item_shop_id it \<in> set (pre @ [sid]) \<longrightarrow> \<not> put_fails e it"
      by (simp_all add: shops_on_def)
    from a have "customers (terminal_logs e) sid ?d = {}"
      by (auto simp: customers_def)
    then have card: "card (customers (terminal_logs e) sid ?d) = 0"
      by simp
    have A: "run_attempts e w =
             attempts e ?d (rows_on e ?d) (pre @ [sid]) (Suc (reads w)) @
             attempts e ?d (rows_on e ?d) post (Suc (reads w) + length (pre @ [sid]))"
      unfolding run_attempts_def sh by (rule attempts_append_ok[OF ok])
    have "(sid, True) \<in> set (map (\<lambda>p. (item_shop_id (fst p), snd p))
             (attempts e ?d (rows_on e ?d) (pre @ [sid]) (Suc (reads w))))"
      by (simp add: attempts_all_ok[OF ok] image_iff)
    then have "(sid, True) \<in> set (map (\<lambda>p. (item_shop_id (fst p), snd p)) (run_attempts e w))"
      unfolding A by simp
    from attempt_of_shop[OF this]
    obtain it where it: "(it, True) \<in> set (run_attempts e w)" "item_shop_id it = sid"
      by blast
    show ?thesis
      using it run_written[OF it(1), of "table w"] run_attempts_items[OF it(1)] card
      by (auto simp: main_cases(2)[OF creds] puts_of_run_main[OF creds])
  qed
  show ?thesis
    using nonneg zero by blast
qed

theorem null_phones_give_zero_count_witness:
  "\<exists>it. table (snd (analytics_main (example_env mixed_rows) example_world)) (''C'', 20473) = Some it \<and>
        (it, True) \<in> set (puts_of_run example_world
                            (snd (analytics_main (example_env mixed_rows) example_world))) \<and>
        item_shop_id it = ''C'' \<and> item_date it = 20473 \<and> item_unique_customers it = 0"
proof -
  let ?e = "example_env mixed_rows"
  have ok: "\<forall>it. item_shop_id it \<in> set ([''A'', ''B''] @ [''C'']) \<longrightarrow> \<not> put_fails ?e it"
    by (simp add: example_env_def)
  have ex: "\<exists>r\<in>set (terminal_logs ?e). shop_id r = Some ''C'' \<and>
              utc_date (created_at r) = Some (run_date ?e example_world)"
    by (simp add: example_run_date)
       (simp add: example_env_def mixed_rows_def utc_date_def date_of_at_time)
  have all: "\<forall>r\<in>set (terminal_logs ?e). shop_id r = Some ''C'' \<and>
              utc_date (created_at r) = Some (run_date ?e example_world) \<longrightarrow>
              phone_number r = None"
    by (simp add: example_env_def mixed_rows_def)
  have shops: "unique (dropna (map shop_id (rows_on ?e (run_date ?e example_world)))) =
               [''A'', ''B''] @ ''C'' # []"
    using mixed_shops by (simp add: example_run_date shops_on_def)
  from null_phones_give_zero_count[where e = ?e and w = example_world and sid = "''C''"
      and pre = "[''A'', ''B'']" and post = "[]"]
    example_credentials[of mixed_rows] mixed_parses ok ex all shops
  show ?thesis
    by (simp add: example_run_date)
qed

section \<open>The generator\<close>

































end
